theory Spec2Isabelle
  imports Main "HOL-Library.Word"
begin

section \<open>Data model of the scanner (macmemory.cpp)\<close>

text \<open>
  A shallow embedding of class \<open>MemoryScanner\<close>. Unsigned 64-bit quantities of the
  source (\<open>mach_vm_address_t\<close>, \<open>mach_vm_size_t\<close>, \<open>size_t\<close>) are \<open>64 word\<close>, so
  that \<open>+\<close> and \<open>-\<close> wrap as they do in the program; a \<open>uint8_t\<close> is an \<open>8 word\<close>;
  a \<open>std::vector<uint8_t>\<close> is a list of bytes. Three field names are changed:
  \<open>size\<close> of a region is \<open>size_r\<close> (\<open>size\<close> is a constant of HOL), and \<open>type\<close> and
  \<open>value\<close> of a scan result are \<open>vtype\<close> and \<open>val\<close> (\<open>type\<close> is also the name of the
  functions' parameter, \<open>value\<close> is a command of Isabelle). Allocating a vector is taken
  to succeed.
\<close>

type_synonym byte = "8 word"
type_synonym u64 = "64 word"

datatype ValueType = BYTE | INT16 | INT32 | INT64 | FLOAT | DOUBLE | STRING | UNKNOWN

record MemoryRegion =
  start :: u64
  size_r :: u64
  protection :: nat
  name :: string
  readable :: bool
  writable :: bool
  executable :: bool

record ScanResult =
  address :: u64
  vtype :: ValueType
  val :: "byte list"
  description :: string

record MemoryScanner =
  targetTask :: nat
  targetPid :: int
  targetName :: string
  memoryRegions :: "MemoryRegion list"
  scanResults :: "ScanResult list"
  previousScanResults :: "ScanResult list"
  isAttached :: bool

text \<open>
  The exceptions the standard conversions \<open>std::stoi\<close>, \<open>std::stoll\<close>, \<open>std::stof\<close>
  and \<open>std::stod\<close> throw, and the one undefined behaviour the model tracks: a read
  past the end of a buffer.
\<close>

datatype exc = invalid_argument | out_of_range

datatype fault = OutOfBoundsRead

text \<open>
  What a member function leaves behind. It returns (the console line it ends with is
  kept as a \<open>report\<close>, since the functions return \<open>void\<close>), or an exception leaves it
  with the scanner as it was at the throw, or it reads out of bounds.
\<close>

datatype report =
    NoPreviousScanResults
  | UnsupportedValueType
  | ScanComplete nat
  | FilteringComplete nat

datatype outcome =
    Returned report MemoryScanner
  | Threw exc MemoryScanner
  | UndefinedBehaviour fault

section \<open>The standard library's integer conversions\<close>

text \<open>
  \<open>std::stoi\<close> and \<open>std::stoll\<close> call \<open>strtol\<close>/\<open>strtoll\<close> in base 10: leading white
  space is skipped, one sign is accepted, the longest run of decimal digits is converted
  and whatever follows is ignored. No digit: \<open>invalid_argument\<close>. A value outside
  \<open>int\<close> (32 bits), respectively \<open>long long\<close> (64 bits): \<open>out_of_range\<close>.
\<close>

definition isspace :: "char \<Rightarrow> bool" where
  "isspace c = (of_char c \<in> {32, 9, 10, 11, 12, 13 :: nat})"

definition isdigit :: "char \<Rightarrow> bool" where
  "isdigit c = (48 \<le> (of_char c :: nat) \<and> (of_char c :: nat) \<le> 57)"

definition digits_value :: "string \<Rightarrow> nat" where
  "digits_value ds = foldl (\<lambda>acc c. 10 * acc + (of_char c - 48)) 0 ds"

definition literal_value :: "string \<Rightarrow> int option" where
  "literal_value s =
     (let s1 = dropWhile isspace s;
          neg = (case s1 of [] \<Rightarrow> False | c # _ \<Rightarrow> c = CHR ''-'');
          s2 = (case s1 of [] \<Rightarrow> []
                | c # r \<Rightarrow> if c = CHR ''-'' \<or> c = CHR ''+'' then r else s1);
          ds = takeWhile isdigit s2
      in if ds = [] then None
         else Some (if neg then - int (digits_value ds) else int (digits_value ds)))"

definition stoi :: "string \<Rightarrow> exc + int" where
  "stoi s =
     (case literal_value s of
        None \<Rightarrow> Inl invalid_argument
      | Some v \<Rightarrow> if v < - (2 ^ 31) \<or> 2 ^ 31 - 1 < v then Inl out_of_range else Inr v)"

definition stoll :: "string \<Rightarrow> exc + int" where
  "stoll s =
     (case literal_value s of
        None \<Rightarrow> Inl invalid_argument
      | Some v \<Rightarrow> if v < - (2 ^ 63) \<or> 2 ^ 63 - 1 < v then Inl out_of_range else Inr v)"

text \<open>
  The floating-point side of the platform is a parameter of the model: the two
  conversions (to the 4 or 8 bytes of the value, or an exception), the ordering of two
  values given by their bytes, and the text \<open>operator<<\<close> prints. That text depends on
  the stream: \<open>float_text\<close> and \<open>double_text\<close> are for a fresh \<open>std::stringstream\<close>,
  \<open>cout_float_text\<close> and \<open>cout_double_text\<close> for \<open>std::cout\<close> in the format earlier output
  has left it in (a progress line of a scan sets \<open>std::fixed\<close> and a precision of 1, and
  nothing resets them).
\<close>

record fpu =
  stof :: "string \<Rightarrow> exc + byte list"
  stod :: "string \<Rightarrow> exc + byte list"
  float_less :: "byte list \<Rightarrow> byte list \<Rightarrow> bool"
  double_less :: "byte list \<Rightarrow> byte list \<Rightarrow> bool"
  float_text :: "byte list \<Rightarrow> string"
  double_text :: "byte list \<Rightarrow> string"
  cout_float_text :: "byte list \<Rightarrow> string"
  cout_double_text :: "byte list \<Rightarrow> string"

section \<open>Bytes of a value\<close>

text \<open>
  \<open>memcpy\<close> of an integer into a vector, on the little-endian targets of the program:
  the low byte first. \<open>static_cast\<close> to a narrower integer keeps the low bytes, which
  is what taking \<open>n\<close> bytes of the value does.
\<close>

fun le_bytes :: "nat \<Rightarrow> int \<Rightarrow> byte list" where
  "le_bytes 0 v = []"
| "le_bytes (Suc n) v = word_of_int v # le_bytes n (v div 256)"

fun le_nat :: "byte list \<Rightarrow> nat" where
  "le_nat [] = 0"
| "le_nat (b # bs) = unat b + 256 * le_nat bs"

definition le_sint :: "byte list \<Rightarrow> int" where
  "le_sint bs =
     (if le_nat bs < 2 ^ (8 * length bs - 1) then int (le_nat bs)
      else int (le_nat bs) - 2 ^ (8 * length bs))"

definition string_bytes :: "string \<Rightarrow> byte list" where
  "string_bytes s = map (\<lambda>c. of_nat (of_char c)) s"

definition bytes_string :: "byte list \<Rightarrow> string" where
  "bytes_string bs = map (\<lambda>b. char_of (unat b)) bs"

text \<open>Reading \<open>n\<close> bytes at \<open>p + off\<close>, where \<open>p\<close> points to the first byte of \<open>buf\<close>.\<close>

definition window :: "byte list \<Rightarrow> nat \<Rightarrow> nat \<Rightarrow> fault + byte list" where
  "window buf off n =
     (if off + n \<le> length buf then Inr (take n (drop off buf)) else Inl OutOfBoundsRead)"

text \<open>Decimal and hexadecimal text of a number, as \<open>operator<<\<close> prints it.\<close>

definition digit_char :: "nat \<Rightarrow> char" where
  "digit_char d = (if d < 10 then char_of (48 + d) else char_of (87 + d))"

fun dec_nat :: "nat \<Rightarrow> string" where
  "dec_nat n = (if n < 10 then [digit_char n] else dec_nat (n div 10) @ [digit_char (n mod 10)])"

fun hex_nat :: "nat \<Rightarrow> string" where
  "hex_nat n = (if n < 16 then [digit_char n] else hex_nat (n div 16) @ [digit_char (n mod 16)])"

declare dec_nat.simps [simp del]
declare hex_nat.simps [simp del]

definition dec_int :: "int \<Rightarrow> string" where
  "dec_int i = (if i < 0 then CHR ''-'' # dec_nat (nat (- i)) else dec_nat (nat i))"

section \<open>The search value (the first \<open>switch\<close> of firstScan and of nextScan)\<close>

text \<open>
  The two functions start with the same \<open>switch (type)\<close>: it converts the literal and
  copies the value into \<open>targetValue\<close>, resized to \<open>valueSize\<close> bytes. The default case
  prints that the type is unsupported and returns.
\<close>

datatype parsed = Parsed "byte list" nat | Unsupported

definition parseValue :: "fpu \<Rightarrow> ValueType \<Rightarrow> string \<Rightarrow> exc + parsed" where
  "parseValue fp type v =
     (case type of
        BYTE \<Rightarrow> (case stoi v of Inl e \<Rightarrow> Inl e | Inr i \<Rightarrow> Inr (Parsed (le_bytes 1 i) 1))
      | INT16 \<Rightarrow> (case stoi v of Inl e \<Rightarrow> Inl e | Inr i \<Rightarrow> Inr (Parsed (le_bytes 2 i) 2))
      | INT32 \<Rightarrow> (case stoi v of Inl e \<Rightarrow> Inl e | Inr i \<Rightarrow> Inr (Parsed (le_bytes 4 i) 4))
      | INT64 \<Rightarrow> (case stoll v of Inl e \<Rightarrow> Inl e | Inr i \<Rightarrow> Inr (Parsed (le_bytes 8 i) 8))
      | FLOAT \<Rightarrow>
          (case stof fp v of
             Inl e \<Rightarrow> Inl e
           | Inr bs \<Rightarrow> Inr (Parsed (take 4 (bs @ replicate 4 0)) 4))
      | DOUBLE \<Rightarrow>
          (case stod fp v of
             Inl e \<Rightarrow> Inl e
           | Inr bs \<Rightarrow> Inr (Parsed (take 8 (bs @ replicate 8 0)) 8))
      | STRING \<Rightarrow> Inr (Parsed (string_bytes v) (length v))
      | UNKNOWN \<Rightarrow> Inr Unsupported)"

section \<open>Predicates and descriptions\<close>

text \<open>
  The \<open>switch (type)\<close> under \<open>comparison == "greater"\<close> and \<open>"less"\<close>: both operands
  are read through a \<open>reinterpret_cast\<close> at the width of the type, the candidate at
  \<open>buf + off\<close> and the target at the start of \<open>targetValue\<close>. A byte compares unsigned,
  the other integers signed. \<open>STRING\<close> and \<open>UNKNOWN\<close> fall to \<open>default: break\<close>,
  which reads nothing and leaves \<open>found\<close> false.
\<close>

definition compareTyped ::
  "fpu \<Rightarrow> bool \<Rightarrow> ValueType \<Rightarrow> byte list \<Rightarrow> nat \<Rightarrow> byte list \<Rightarrow> fault + bool" where
  "compareTyped fp gt type buf off targetValue =
     (let rd = (\<lambda>n cmp.
            case window buf off n of
              Inl f \<Rightarrow> Inl f
            | Inr v \<Rightarrow> (case window targetValue 0 n of
                          Inl f \<Rightarrow> Inl f
                        | Inr t \<Rightarrow> Inr (if gt then cmp t v else cmp v t)))
      in case type of
           BYTE \<Rightarrow> rd 1 (\<lambda>a b. le_nat a < le_nat b)
         | INT16 \<Rightarrow> rd 2 (\<lambda>a b. le_sint a < le_sint b)
         | INT32 \<Rightarrow> rd 4 (\<lambda>a b. le_sint a < le_sint b)
         | INT64 \<Rightarrow> rd 8 (\<lambda>a b. le_sint a < le_sint b)
         | FLOAT \<Rightarrow> rd 4 (float_less fp)
         | DOUBLE \<Rightarrow> rd 8 (double_less fp)
         | STRING \<Rightarrow> Inr False
         | UNKNOWN \<Rightarrow> Inr False)"

text \<open>
  \<open>memcmp(p, q, n) == 0\<close> where \<open>p\<close> points at \<open>a + off\<close> and \<open>q\<close> at the start of
  \<open>b\<close>: it reads \<open>n\<close> bytes of each.
\<close>

definition memcmp_eq :: "byte list \<Rightarrow> nat \<Rightarrow> byte list \<Rightarrow> nat \<Rightarrow> fault + bool" where
  "memcmp_eq a off b n =
     (case window a off n of
        Inl f \<Rightarrow> Inl f
      | Inr x \<Rightarrow> (case window b 0 n of Inl f \<Rightarrow> Inl f | Inr y \<Rightarrow> Inr (x = y)))"

text \<open>
  The \<open>switch (type)\<close> that builds \<open>result.description\<close> from \<open>result.value\<close>: a byte
  prints as an unsigned \<open>int\<close>, the other integers signed, a string between double
  quotes over the whole length of the value.
\<close>

definition describe :: "fpu \<Rightarrow> ValueType \<Rightarrow> byte list \<Rightarrow> fault + string" where
  "describe fp type v =
     (let rd = (\<lambda>n txt. case window v 0 n of Inl f \<Rightarrow> Inl f | Inr w \<Rightarrow> Inr (txt w))
      in case type of
           BYTE \<Rightarrow> rd 1 (\<lambda>w. dec_nat (le_nat w))
         | INT16 \<Rightarrow> rd 2 (\<lambda>w. dec_int (le_sint w))
         | INT32 \<Rightarrow> rd 4 (\<lambda>w. dec_int (le_sint w))
         | INT64 \<Rightarrow> rd 8 (\<lambda>w. dec_int (le_sint w))
         | FLOAT \<Rightarrow> rd 4 (float_text fp)
         | DOUBLE \<Rightarrow> rd 8 (double_text fp)
         | STRING \<Rightarrow> Inr (CHR 0x22 # bytes_string v @ [CHR 0x22])
         | UNKNOWN \<Rightarrow> Inr ''Unknown'')"

section \<open>Reading the target\<close>

text \<open>
  The target's memory is outside the program and may change between two reads, so a
  read is indexed by when it happens: \<open>mem t a n\<close> is what the \<open>t\<close>-th
  \<open>mach_vm_read_overwrite\<close> of an operation returns for \<open>n\<close> bytes at address \<open>a\<close>,
  \<open>None\<close> when the kernel refuses and otherwise the bytes it copied.
  \<open>readMemoryBlock\<close> succeeds when the call does and \<open>data_size == size\<close>.
\<close>

type_synonym memory = "nat \<Rightarrow> u64 \<Rightarrow> nat \<Rightarrow> byte list option"

definition readMemoryBlock :: "memory \<Rightarrow> nat \<Rightarrow> u64 \<Rightarrow> nat \<Rightarrow> byte list option" where
  "readMemoryBlock mem t a n =
     (case mem t a n of
        None \<Rightarrow> None
      | Some bs \<Rightarrow> if length bs = n then Some bs else None)"

section \<open>firstScan\<close>

text \<open>
  The body of the offset loop up to \<open>if (found)\<close>: the value of \<open>found\<close> at one
  offset. A comparison other than the three named leaves \<open>found\<close> false.
\<close>

definition foundAt ::
  "fpu \<Rightarrow> ValueType \<Rightarrow> string \<Rightarrow> byte list \<Rightarrow> nat \<Rightarrow> byte list \<Rightarrow> nat \<Rightarrow> fault + bool" where
  "foundAt fp type comparison targetValue valueSize buffer off =
     (if comparison = ''exact'' then memcmp_eq buffer off targetValue valueSize
      else if comparison = ''greater'' then compareTyped fp True type buffer off targetValue
      else if comparison = ''less'' then compareTyped fp False type buffer off targetValue
      else Inr False)"

text \<open>The block under \<open>if (found)\<close>: the result pushed for a hit at \<open>offset\<close>.\<close>

definition hitAt ::
  "fpu \<Rightarrow> ValueType \<Rightarrow> nat \<Rightarrow> u64 \<Rightarrow> byte list \<Rightarrow> u64 \<Rightarrow> fault + ScanResult" where
  "hitAt fp type valueSize regionStart buffer offset =
     (case window buffer (unat offset) valueSize of
        Inl f \<Rightarrow> Inl f
      | Inr w \<Rightarrow>
          (case describe fp type w of
             Inl f \<Rightarrow> Inl f
           | Inr d \<Rightarrow>
               Inr \<lparr>address = regionStart + offset, vtype = type, val = w, description = d\<rparr>))"

text \<open>
  The loop \<open>for (size_t offset = 0; offset <= buffer.size() - valueSize; offset++)\<close>.
  The bound is computed in \<open>size_t\<close>, so it wraps when the buffer is shorter than the
  value; when it wraps to the largest \<open>size_t\<close> the condition never fails and the loop
  need not end, which is why the function is partial (\<open>None\<close>: it does not return).
  \<open>results\<close> and \<open>totalHits\<close> are the scanner's \<open>scanResults\<close> and the local counter.
\<close>

partial_function (option) scanRegion ::
  "fpu \<Rightarrow> ValueType \<Rightarrow> string \<Rightarrow> byte list \<Rightarrow> nat \<Rightarrow> u64 \<Rightarrow> byte list \<Rightarrow> u64 \<Rightarrow>
   ScanResult list \<Rightarrow> nat \<Rightarrow> (fault + ScanResult list \<times> nat) option" where
  "scanRegion fp type comparison targetValue valueSize regionStart buffer offset results totalHits =
     (if offset \<le> of_nat (length buffer) - of_nat valueSize then
        (case foundAt fp type comparison targetValue valueSize buffer (unat offset) of
           Inl f \<Rightarrow> Some (Inl f)
         | Inr found \<Rightarrow>
             if found then
               (case hitAt fp type valueSize regionStart buffer offset of
                  Inl f \<Rightarrow> Some (Inl f)
                | Inr result \<Rightarrow>
                    if totalHits + 1 \<ge> 10000 then Some (Inr (results @ [result], totalHits + 1))
                    else scanRegion fp type comparison targetValue valueSize regionStart buffer
                           (offset + 1) (results @ [result]) (totalHits + 1))
             else scanRegion fp type comparison targetValue valueSize regionStart buffer
                    (offset + 1) results totalHits)
      else Some (Inr (results, totalHits)))"

declare scanRegion.simps [code]

text \<open>
  The loop over \<open>memoryRegions\<close>, from region \<open>i\<close> on: a region that is not readable
  or whose read fails is skipped; after a region, the scan stops when \<open>totalHits\<close> has
  reached 10000.
\<close>

fun scanRegions ::
  "fpu \<Rightarrow> memory \<Rightarrow> ValueType \<Rightarrow> string \<Rightarrow> byte list \<Rightarrow> nat \<Rightarrow> nat \<Rightarrow> MemoryRegion list \<Rightarrow>
   ScanResult list \<Rightarrow> nat \<Rightarrow> (fault + ScanResult list \<times> nat) option" where
  "scanRegions fp mem type comparison targetValue valueSize i [] results totalHits =
     Some (Inr (results, totalHits))"
| "scanRegions fp mem type comparison targetValue valueSize i (region # rest) results totalHits =
     (if \<not> readable region then
        scanRegions fp mem type comparison targetValue valueSize (i + 1) rest results totalHits
      else
        (case readMemoryBlock mem i (start region) (unat (size_r region)) of
           None \<Rightarrow>
             scanRegions fp mem type comparison targetValue valueSize (i + 1) rest results totalHits
         | Some buffer \<Rightarrow>
             (case scanRegion fp type comparison targetValue valueSize (start region) buffer 0
                     results totalHits of
                None \<Rightarrow> None
              | Some (Inl f) \<Rightarrow> Some (Inl f)
              | Some (Inr (results', totalHits')) \<Rightarrow>
                  if totalHits' \<ge> 10000 then Some (Inr (results', totalHits'))
                  else scanRegions fp mem type comparison targetValue valueSize (i + 1) rest
                         results' totalHits')))"

definition firstScan ::
  "fpu \<Rightarrow> memory \<Rightarrow> MemoryScanner \<Rightarrow> ValueType \<Rightarrow> string \<Rightarrow> string \<Rightarrow> outcome option" where
  "firstScan fp mem s type v comparison =
     (let s1 = s\<lparr>scanResults := [], previousScanResults := []\<rparr> in
      case parseValue fp type v of
        Inl e \<Rightarrow> Some (Threw e s1)
      | Inr Unsupported \<Rightarrow> Some (Returned UnsupportedValueType s1)
      | Inr (Parsed targetValue valueSize) \<Rightarrow>
          (case scanRegions fp mem type comparison targetValue valueSize 0 (memoryRegions s1)
                  (scanResults s1) 0 of
             None \<Rightarrow> None
           | Some (Inl f) \<Rightarrow> Some (UndefinedBehaviour f)
           | Some (Inr (results, totalHits)) \<Rightarrow>
               Some (Returned (ScanComplete (length results)) (s1\<lparr>scanResults := results\<rparr>))))"

section \<open>nextScan\<close>

text \<open>
  The value of \<open>found\<close> for one previous result, once its address has been read into
  \<open>currentValue\<close>. \<open>changed\<close> and \<open>unchanged\<close> are \<open>memcmp\<close> over \<open>valueSize\<close> bytes
  against \<open>prevResult.value\<close>.
\<close>

definition refineFound ::
  "fpu \<Rightarrow> ValueType \<Rightarrow> string \<Rightarrow> byte list \<Rightarrow> nat \<Rightarrow> byte list \<Rightarrow> ScanResult \<Rightarrow> fault + bool" where
  "refineFound fp type comparison targetValue valueSize currentValue prevResult =
     (if comparison = ''exact'' then memcmp_eq currentValue 0 targetValue valueSize
      else if comparison = ''greater'' then compareTyped fp True type currentValue 0 targetValue
      else if comparison = ''less'' then compareTyped fp False type currentValue 0 targetValue
      else if comparison = ''changed'' then
        (case memcmp_eq currentValue 0 (val prevResult) valueSize of
           Inl f \<Rightarrow> Inl f
         | Inr same \<Rightarrow> Inr (\<not> same))
      else if comparison = ''unchanged'' then memcmp_eq currentValue 0 (val prevResult) valueSize
      else Inr False)"

text \<open>
  The block under \<open>if (found)\<close>: a copy of the previous result with the fresh bytes and
  their description; its address and its type are the previous result's.
\<close>

definition refineHit :: "fpu \<Rightarrow> ValueType \<Rightarrow> byte list \<Rightarrow> ScanResult \<Rightarrow> fault + ScanResult" where
  "refineHit fp type currentValue prevResult =
     (case describe fp type currentValue of
        Inl f \<Rightarrow> Inl f
      | Inr d \<Rightarrow> Inr (prevResult\<lparr>val := currentValue, description := d\<rparr>))"

text \<open>The loop over \<open>previousScanResults\<close>, from index \<open>i\<close> on.\<close>

fun filterPrevious ::
  "fpu \<Rightarrow> memory \<Rightarrow> ValueType \<Rightarrow> string \<Rightarrow> byte list \<Rightarrow> nat \<Rightarrow> nat \<Rightarrow> ScanResult list \<Rightarrow>
   ScanResult list \<Rightarrow> fault + ScanResult list" where
  "filterPrevious fp mem type comparison targetValue valueSize i [] results = Inr results"
| "filterPrevious fp mem type comparison targetValue valueSize i (prevResult # rest) results =
     (case readMemoryBlock mem i (address prevResult) valueSize of
        None \<Rightarrow> filterPrevious fp mem type comparison targetValue valueSize (i + 1) rest results
      | Some currentValue \<Rightarrow>
          (case refineFound fp type comparison targetValue valueSize currentValue prevResult of
             Inl f \<Rightarrow> Inl f
           | Inr found \<Rightarrow>
               if found then
                 (case refineHit fp type currentValue prevResult of
                    Inl f \<Rightarrow> Inl f
                  | Inr result \<Rightarrow>
                      filterPrevious fp mem type comparison targetValue valueSize (i + 1) rest
                        (results @ [result]))
               else filterPrevious fp mem type comparison targetValue valueSize (i + 1) rest
                      results))"

definition nextScan ::
  "fpu \<Rightarrow> memory \<Rightarrow> MemoryScanner \<Rightarrow> ValueType \<Rightarrow> string \<Rightarrow> string \<Rightarrow> outcome" where
  "nextScan fp mem s type v comparison =
     (if scanResults s = [] then Returned NoPreviousScanResults s
      else
        (let s1 = s\<lparr>previousScanResults := scanResults s, scanResults := []\<rparr> in
         case parseValue fp type v of
           Inl e \<Rightarrow> Threw e s1
         | Inr Unsupported \<Rightarrow> Returned UnsupportedValueType s1
         | Inr (Parsed targetValue valueSize) \<Rightarrow>
             (case filterPrevious fp mem type comparison targetValue valueSize 0
                     (previousScanResults s1) (scanResults s1) of
                Inl f \<Rightarrow> UndefinedBehaviour f
              | Inr results \<Rightarrow>
                  Returned (FilteringComplete (length results)) (s1\<lparr>scanResults := results\<rparr>))))"

section \<open>watchAddress\<close>

text \<open>
  \<open>printValue\<close>: the text printed on \<open>std::cout\<close> for the value at \<open>data\<close> (integers in
  base 10: each call in watchAddress follows a \<open>std::dec\<close>). A number is read at the
  width of its type. A \<open>STRING\<close> is built by \<open>std::string(const char*)\<close>, which reads
  up to the first zero byte, wherever that is.
\<close>

definition printValue :: "fpu \<Rightarrow> byte list \<Rightarrow> ValueType \<Rightarrow> fault + string" where
  "printValue fp data type =
     (let rd = (\<lambda>n txt. case window data 0 n of Inl f \<Rightarrow> Inl f | Inr w \<Rightarrow> Inr (txt w))
      in case type of
           BYTE \<Rightarrow> rd 1 (\<lambda>w. dec_nat (le_nat w))
         | INT16 \<Rightarrow> rd 2 (\<lambda>w. dec_int (le_sint w))
         | INT32 \<Rightarrow> rd 4 (\<lambda>w. dec_int (le_sint w))
         | INT64 \<Rightarrow> rd 8 (\<lambda>w. dec_int (le_sint w))
         | FLOAT \<Rightarrow> rd 4 (cout_float_text fp)
         | DOUBLE \<Rightarrow> rd 8 (cout_double_text fp)
         | STRING \<Rightarrow>
             if 0 \<in> set data
             then Inr (CHR 0x22 # bytes_string (takeWhile (\<lambda>b. b \<noteq> 0) data) @ [CHR 0x22])
             else Inl OutOfBoundsRead
         | UNKNOWN \<Rightarrow> Inr ''Unknown'')"

datatype watch_line =
    NotAttached
  | FailedInitialRead
  | Watching string
  | ChangeDetected nat string string
  | FailedToRead

text \<open>
  The \<open>while (true)\<close> loop: it ends only at a failed read. It has the scanner in scope
  (\<open>this\<close>), so the scanner is threaded through; \<open>t\<close> counts the reads, \<open>out\<close> is what has
  been printed. \<open>None\<close>: the loop does not end.
\<close>

partial_function (option) watchLoop ::
  "fpu \<Rightarrow> memory \<Rightarrow> u64 \<Rightarrow> ValueType \<Rightarrow> nat \<Rightarrow> nat \<Rightarrow> byte list \<Rightarrow> nat \<Rightarrow> watch_line list \<Rightarrow>
   MemoryScanner \<Rightarrow> (fault + MemoryScanner \<times> watch_line list) option" where
  "watchLoop fp mem addr type valueSize t lastValue updateCount out s =
     (case readMemoryBlock mem t addr valueSize of
        None \<Rightarrow> Some (Inr (s, out @ [FailedToRead]))
      | Some currentValue \<Rightarrow>
          (case memcmp_eq lastValue 0 currentValue valueSize of
             Inl f \<Rightarrow> Some (Inl f)
           | Inr same \<Rightarrow>
               if \<not> same then
                 (case printValue fp lastValue type of
                    Inl f \<Rightarrow> Some (Inl f)
                  | Inr old \<Rightarrow>
                      (case printValue fp currentValue type of
                         Inl f \<Rightarrow> Some (Inl f)
                       | Inr new \<Rightarrow>
                           watchLoop fp mem addr type valueSize (t + 1) currentValue
                             (updateCount + 1)
                             (out @ [ChangeDetected (updateCount + 1) old new]) s))
               else watchLoop fp mem addr type valueSize (t + 1) lastValue updateCount out s))"

declare watchLoop.simps [code]

definition watchAddress ::
  "fpu \<Rightarrow> memory \<Rightarrow> MemoryScanner \<Rightarrow> u64 \<Rightarrow> ValueType \<Rightarrow> nat \<Rightarrow>
   (fault + MemoryScanner \<times> watch_line list) option" where
  "watchAddress fp mem s addr type updateInterval =
     (if \<not> isAttached s then Some (Inr (s, [NotAttached]))
      else
        (let valueSize = (case type of
               BYTE \<Rightarrow> 1 | INT16 \<Rightarrow> 2 | INT32 \<Rightarrow> 4 | INT64 \<Rightarrow> 8 | FLOAT \<Rightarrow> 4 | DOUBLE \<Rightarrow> 8
             | STRING \<Rightarrow> 32 | UNKNOWN \<Rightarrow> 4)
         in case readMemoryBlock mem 0 addr valueSize of
              None \<Rightarrow> Some (Inr (s, [FailedInitialRead]))
            | Some lastValue \<Rightarrow>
                (case printValue fp lastValue type of
                   Inl f \<Rightarrow> Some (Inl f)
                 | Inr txt \<Rightarrow>
                     watchLoop fp mem addr type valueSize 1 lastValue 0 [Watching txt] s)))"

section \<open>saveResults\<close>

text \<open>
  The file is the sequence of characters written to it. The code writes it in pieces,
  each ended by \<open>std::endl\<close>, which puts a line feed; a piece that itself holds a line
  feed is several lines of the file. The stream's number base is state: \<open>std::hex\<close>
  stays set after the bytes of a value have been written, and the next \<open>file << i\<close> is
  printed in that base; \<open>hexmode\<close> carries it from one result to the next.
\<close>

definition line_feed :: char where
  "line_feed = CHR 0x0A"

definition endl_pieces :: "string list \<Rightarrow> string" where
  "endl_pieces ps = concat (map (\<lambda>p. p @ [line_feed]) ps)"

text \<open>
  The lines of a file, as a reader of the file sees them: the text between line feeds
  (a last line that no line feed ends counts when it is not empty).
\<close>

fun split_lines :: "string \<Rightarrow> string \<Rightarrow> string list" where
  "split_lines cur [] = (if cur = [] then [] else [cur])"
| "split_lines cur (c # cs) =
     (if c = line_feed then cur # split_lines [] cs else split_lines (cur @ [c]) cs)"

definition file_lines :: "string \<Rightarrow> string list" where
  "file_lines content = split_lines [] content"

definition hash_lines :: "string list \<Rightarrow> nat" where
  "hash_lines ls = length (filter (\<lambda>l. take 1 l = ''#'') ls)"

definition ordinal :: "ValueType \<Rightarrow> nat" where
  "ordinal type = (case type of
      BYTE \<Rightarrow> 0 | INT16 \<Rightarrow> 1 | INT32 \<Rightarrow> 2 | INT64 \<Rightarrow> 3 | FLOAT \<Rightarrow> 4 | DOUBLE \<Rightarrow> 5
    | STRING \<Rightarrow> 6 | UNKNOWN \<Rightarrow> 7)"

definition hex_byte :: "byte \<Rightarrow> string" where
  "hex_byte b = [digit_char (unat b div 16), digit_char (unat b mod 16)]"

definition resultLine :: "bool \<Rightarrow> nat \<Rightarrow> ScanResult \<Rightarrow> string" where
  "resultLine hexmode i result =
     (if hexmode then hex_nat i else dec_nat i) @ '','' @
     ''0x'' @ hex_nat (unat (address result)) @ '','' @
     dec_nat (ordinal (vtype result)) @ '','' @
     concat (map hex_byte (val result)) @
     '','' @ description result"

fun resultLines :: "bool \<Rightarrow> nat \<Rightarrow> ScanResult list \<Rightarrow> string list" where
  "resultLines hexmode i [] = []"
| "resultLines hexmode i (result # rest) =
     resultLine hexmode i result # resultLines (val result \<noteq> []) (i + 1) rest"

text \<open>The characters a number is written with.\<close>

definition digits :: "char set" where
  "digits = digit_char ` {..<16}"

text \<open>The five pieces written before the loop over the results.\<close>

definition headerLines :: "MemoryScanner \<Rightarrow> int \<Rightarrow> string list" where
  "headerLines s now =
     [''# MacMemory Scan Results'',
      ''# Process: '' @ targetName s @ '' (PID: '' @ dec_int (targetPid s) @ '')'',
      ''# Timestamp: '' @ dec_int now,
      ''# Results: '' @ dec_nat (length (scanResults s)),
      ''# Format: ID,Address,Type,Value,Description'']"

text \<open>
  \<open>opened\<close>: whether the \<open>std::ofstream\<close> could be opened; \<open>now\<close>: \<open>std::time(nullptr)\<close>.
  \<open>None\<close>: no file is written. Otherwise the characters of the file.
\<close>

definition saveResults :: "MemoryScanner \<Rightarrow> bool \<Rightarrow> int \<Rightarrow> string option" where
  "saveResults s opened now =
     (if scanResults s = [] then None
      else if \<not> opened then None
      else Some (endl_pieces (headerLines s now @ resultLines False 0 (scanResults s))))"

section \<open>Attaching, detaching and the states a scanner can be in\<close>

definition new_scanner :: MemoryScanner where
  "new_scanner =
     \<lparr>targetTask = 0, targetPid = 0, targetName = [], memoryRegions = [], scanResults = [],
      previousScanResults = [], isAttached = False\<rparr>"

text \<open>
  \<open>os\<close> is what the kernel answers: \<open>None\<close> when \<open>task_for_pid\<close> fails, otherwise the
  task port, the process name and the regions \<open>refreshMemoryRegions\<close> enumerates.
\<close>

definition attachProcess ::
  "(nat \<times> string \<times> MemoryRegion list) option \<Rightarrow> int \<Rightarrow> MemoryScanner \<Rightarrow> MemoryScanner" where
  "attachProcess os pid s =
     (case os of
        None \<Rightarrow> s
      | Some (task, pname, regions) \<Rightarrow>
          s\<lparr>targetTask := task, targetPid := pid, targetName := pname, isAttached := True,
            scanResults := [], previousScanResults := [], memoryRegions := regions\<rparr>)"

definition detachProcess :: "MemoryScanner \<Rightarrow> MemoryScanner" where
  "detachProcess s =
     (if isAttached s then
        s\<lparr>targetTask := 0, targetPid := 0, targetName := [], isAttached := False,
          memoryRegions := [], scanResults := [], previousScanResults := []\<rparr>
      else s)"

text \<open>
  The scanner's fields are private: a scanner is what the constructor builds, changed
  only by the member functions that write them. Those are attachProcess, detachProcess,
  firstScan and nextScan (loadResults and loadPatterns have empty bodies). A call that
  ran into undefined behaviour or that never returned leaves no state to go on from.
\<close>

inductive reachable :: "MemoryScanner \<Rightarrow> bool" where
  r_new: "reachable new_scanner"
| r_attach: "reachable s \<Longrightarrow> reachable (attachProcess os pid s)"
| r_detach: "reachable s \<Longrightarrow> reachable (detachProcess s)"
| r_first: "reachable s \<Longrightarrow> firstScan fp mem s type v comparison = Some (Returned r s') \<Longrightarrow>
     reachable s'"
| r_first_threw: "reachable s \<Longrightarrow> firstScan fp mem s type v comparison = Some (Threw e s') \<Longrightarrow>
     reachable s'"
| r_next: "reachable s \<Longrightarrow> nextScan fp mem s type v comparison = Returned r s' \<Longrightarrow> reachable s'"
| r_next_threw: "reachable s \<Longrightarrow> nextScan fp mem s type v comparison = Threw e s' \<Longrightarrow>
     reachable s'"

section \<open>The command line's scan and next commands\<close>

text \<open>
  \<open>CLI::scanMemory\<close> and \<open>CLI::nextScan\<close> (here \<open>nextScan_cmd\<close>, the scanner's function
  has the name): the checks they make on the arguments before they call the scanner, each
  with the message it prints as a constructor of \<open>cli\<close>.
\<close>

definition tolower :: "string \<Rightarrow> string" where
  "tolower s =
     map (\<lambda>c. if 65 \<le> (of_char c :: nat) \<and> (of_char c :: nat) \<le> 90
              then char_of (of_char c + 32 :: nat) else c) s"

definition typeOfName :: "string \<Rightarrow> ValueType" where
  "typeOfName typeStr =
     (if typeStr = ''byte'' then BYTE
      else if typeStr = ''short'' then INT16
      else if typeStr = ''int'' then INT32
      else if typeStr = ''long'' then INT64
      else if typeStr = ''float'' then FLOAT
      else if typeStr = ''double'' then DOUBLE
      else if typeStr = ''string'' then STRING
      else UNKNOWN)"

datatype 'a cli =
    Usage
  | NotAttachedError
  | UnknownValueType string
  | UnknownComparison string
  | NoResultsError
  | Ran 'a

definition scanMemory ::
  "fpu \<Rightarrow> memory \<Rightarrow> MemoryScanner \<Rightarrow> string list \<Rightarrow> outcome option cli" where
  "scanMemory fp mem s args =
     (if length args < 2 then Usage
      else if \<not> isAttached s then NotAttachedError
      else
        (let typeStr = tolower (args ! 0); type = typeOfName typeStr in
         if type = UNKNOWN then UnknownValueType typeStr
         else
           (let v = args ! 1;
                comparison = (if length args \<ge> 3 then tolower (args ! 2) else ''exact'') in
            if comparison \<noteq> ''exact'' \<and> comparison \<noteq> ''greater'' \<and> comparison \<noteq> ''less''
            then UnknownComparison comparison
            else Ran (firstScan fp mem s type v comparison))))"

definition nextScan_cmd ::
  "fpu \<Rightarrow> memory \<Rightarrow> MemoryScanner \<Rightarrow> string list \<Rightarrow> outcome cli" where
  "nextScan_cmd fp mem s args =
     (if length args < 2 then Usage
      else if \<not> isAttached s then NotAttachedError
      else if length (scanResults s) = 0 then NoResultsError
      else
        (let typeStr = tolower (args ! 0); type = typeOfName typeStr in
         if type = UNKNOWN then UnknownValueType typeStr
         else
           (let v = args ! 1;
                comparison = (if length args \<ge> 3 then tolower (args ! 2) else ''exact'') in
            if comparison \<noteq> ''exact'' \<and> comparison \<noteq> ''greater'' \<and> comparison \<noteq> ''less'' \<and>
               comparison \<noteq> ''changed'' \<and> comparison \<noteq> ''unchanged''
            then UnknownComparison comparison
            else Ran (nextScan fp mem s type v comparison))))"

text \<open>
  A floating-point platform that rejects every literal. It closes the examples below,
  which are on integers and strings and never reach it.
\<close>

definition no_fpu :: fpu where
  "no_fpu =
     \<lparr>stof = (\<lambda>_. Inl invalid_argument), stod = (\<lambda>_. Inl invalid_argument),
      float_less = (\<lambda>_ _. False), double_less = (\<lambda>_ _. False),
      float_text = (\<lambda>_. []), double_text = (\<lambda>_. []),
      cout_float_text = (\<lambda>_. []), cout_double_text = (\<lambda>_. [])\<rparr>"

section \<open>Example targets\<close>

text \<open>
  A target whose memory does not change: \<open>bytes\<close> mapped at \<open>base\<close>, every read inside
  them succeeds and every other read fails.
\<close>

definition flat_memory :: "u64 \<Rightarrow> byte list \<Rightarrow> u64 \<Rightarrow> nat \<Rightarrow> byte list option" where
  "flat_memory base bytes a n =
     (if base \<le> a \<and> unat (a - base) + n \<le> length bytes
      then Some (take n (drop (unat (a - base)) bytes)) else None)"

definition region_of :: "u64 \<Rightarrow> u64 \<Rightarrow> MemoryRegion" where
  "region_of base n =
     \<lparr>start = base, size_r = n, protection = 3, name = ''RW-'', readable = True,
      writable = True, executable = False\<rparr>"

definition attached_to :: "MemoryRegion list \<Rightarrow> MemoryScanner" where
  "attached_to regions = attachProcess (Some (7, ''game'', regions)) 42 new_scanner"

text \<open>Four bytes at 0x1000 holding the 32-bit integer 100.\<close>

definition memory100 :: memory where
  "memory100 t = flat_memory 0x1000 [100, 0, 0, 0]"

definition attached100 :: MemoryScanner where
  "attached100 = attached_to [region_of 0x1000 4]"

definition hit100 :: ScanResult where
  "hit100 = \<lparr>address = 0x1000, vtype = INT32, val = [100, 0, 0, 0], description = ''100''\<rparr>"

definition found100 :: MemoryScanner where
  "found100 = attached100\<lparr>scanResults := [hit100]\<rparr>"

text \<open>Two 32-bit integers, 50 at 0x2000 and 150 at 0x2004, both found by an earlier pass.\<close>

definition memory50_150 :: memory where
  "memory50_150 t = flat_memory 0x2000 [50, 0, 0, 0, 150, 0, 0, 0]"

definition hit50 :: ScanResult where
  "hit50 = \<lparr>address = 0x2000, vtype = INT32, val = [50, 0, 0, 0], description = ''50''\<rparr>"

definition hit150 :: ScanResult where
  "hit150 = \<lparr>address = 0x2004, vtype = INT32, val = [150, 0, 0, 0], description = ''150''\<rparr>"

definition found50_150 :: MemoryScanner where
  "found50_150 = (attached_to [region_of 0x2000 8])\<lparr>scanResults := [hit50, hit150]\<rparr>"

text \<open>A readable region of two bytes, shorter than a 32-bit value.\<close>

definition memory_short :: memory where
  "memory_short t = flat_memory 0x3000 [1, 2]"

definition attached_short :: MemoryScanner where
  "attached_short = attached_to [region_of 0x3000 2]"

text \<open>A readable page of 4096 bytes, each of them the character \<open>B\<close>.\<close>

definition memory_page :: memory where
  "memory_page t = flat_memory 0x10000 (replicate 4096 66)"

definition attached_page :: MemoryScanner where
  "attached_page = attached_to [region_of 0x10000 4096]"

text \<open>
  A text match recorded as \<open>HELLO\<close> at 0x4000, where the target now holds \<open>HELLA\<close>.
\<close>

definition memoryHELLA :: memory where
  "memoryHELLA t = flat_memory 0x4000 (string_bytes ''HELLA'')"

definition hitHELLO :: ScanResult where
  "hitHELLO =
     \<lparr>address = 0x4000, vtype = STRING, val = string_bytes ''HELLO'',
      description = CHR 0x22 # ''HELLO'' @ [CHR 0x22]\<rparr>"

definition hitHELLA :: ScanResult where
  "hitHELLA =
     \<lparr>address = 0x4000, vtype = STRING, val = string_bytes ''HELLA'',
      description = CHR 0x22 # ''HELLA'' @ [CHR 0x22]\<rparr>"

definition foundHELLO :: MemoryScanner where
  "foundHELLO = (attached_to [region_of 0x4000 5])\<lparr>scanResults := [hitHELLO]\<rparr>"

text \<open>Two bytes at 0x5000, the first of them 44.\<close>

definition memory44 :: memory where
  "memory44 t = flat_memory 0x5000 [44, 1]"

definition attached44 :: MemoryScanner where
  "attached44 = attached_to [region_of 0x5000 2]"

definition hit44 :: ScanResult where
  "hit44 = \<lparr>address = 0x5000, vtype = BYTE, val = [44], description = ''44''\<rparr>"

text \<open>The four characters \<open>ABCD\<close> at 0x6000, and a region of one byte at 0x7000.\<close>

definition memoryABCD :: memory where
  "memoryABCD t = flat_memory 0x6000 (string_bytes ''ABCD'')"

definition attachedABCD :: MemoryScanner where
  "attachedABCD = attached_to [region_of 0x6000 4]"

definition memory_one :: memory where
  "memory_one t = flat_memory 0x7000 [65]"

definition attached_one :: MemoryScanner where
  "attached_one = attached_to [region_of 0x7000 1]"

text \<open>
  A target watched over time: the integer at 0x1000 is 100 at the first two reads, 101 at
  the third, and the fourth read fails.
\<close>

definition watch_memory :: memory where
  "watch_memory t =
     (if t < 2 then flat_memory 0x1000 [100, 0, 0, 0]
      else if t = 2 then flat_memory 0x1000 [101, 0, 0, 0]
      else (\<lambda>a n. None))"

text \<open>
  The target of the text match before it changed (\<open>HELLO\<close>), and after a change that
  puts a line feed and a \<open>#\<close> into the five bytes.
\<close>

definition memoryHELLO :: memory where
  "memoryHELLO t = flat_memory 0x4000 (string_bytes ''HELLO'')"

definition memoryNL :: memory where
  "memoryNL t = flat_memory 0x4000 [72, 69, 76, 10, 35]"

definition hitNL :: ScanResult where
  "hitNL =
     \<lparr>address = 0x4000, vtype = STRING, val = [72, 69, 76, 10, 35],
      description = CHR 0x22 # ''HEL'' @ [CHR 0x0A, CHR ''#'', CHR 0x22]\<rparr>"

definition foundNL :: MemoryScanner where
  "foundNL = foundHELLO\<lparr>previousScanResults := [hitHELLO], scanResults := [hitNL]\<rparr>"

text \<open>Eleven zero bytes at 0x8000, and the scanner after a scan for the byte 0.\<close>

definition memory_zeros :: memory where
  "memory_zeros t = flat_memory 0x8000 [0, 0, 0, 0, 0, 0, 0, 0, 0, 0, 0]"

definition attached_zeros :: MemoryScanner where
  "attached_zeros = attached_to [region_of 0x8000 11]"

definition found_zeros :: MemoryScanner where
  "found_zeros = attached_zeros\<lparr>scanResults :=
       [\<lparr>address = 0x8000, vtype = BYTE, val = [0], description = ''0''\<rparr>,
        \<lparr>address = 0x8001, vtype = BYTE, val = [0], description = ''0''\<rparr>,
        \<lparr>address = 0x8002, vtype = BYTE, val = [0], description = ''0''\<rparr>,
        \<lparr>address = 0x8003, vtype = BYTE, val = [0], description = ''0''\<rparr>,
        \<lparr>address = 0x8004, vtype = BYTE, val = [0], description = ''0''\<rparr>,
        \<lparr>address = 0x8005, vtype = BYTE, val = [0], description = ''0''\<rparr>,
        \<lparr>address = 0x8006, vtype = BYTE, val = [0], description = ''0''\<rparr>,
        \<lparr>address = 0x8007, vtype = BYTE, val = [0], description = ''0''\<rparr>,
        \<lparr>address = 0x8008, vtype = BYTE, val = [0], description = ''0''\<rparr>,
        \<lparr>address = 0x8009, vtype = BYTE, val = [0], description = ''0''\<rparr>,
        \<lparr>address = 0x800a, vtype = BYTE, val = [0], description = ''0''\<rparr>]\<rparr>"

section \<open>Evaluation on concrete inputs\<close>

lemmas char_eval = char_of_def bit_Suc_0_iff digit_char_def

lemmas parse_eval =
  parseValue_def stoi_def stoll_def literal_value_def isspace_def isdigit_def digits_value_def

lemmas target_eval =
  attached_to_def attachProcess_def new_scanner_def region_of_def readMemoryBlock_def
  flat_memory_def

lemmas scan_eval =
  scanRegion.simps foundAt_def memcmp_eq_def compareTyped_def window_def hitAt_def describe_def
  refineFound_def refineHit_def le_sint_def dec_int_def dec_nat.simps char_eval

lemma parse_int32_100: "parseValue fp INT32 ''100'' = Inr (Parsed [100, 0, 0, 0] 4)"
  by (simp add: parse_eval numeral_eq_Suc)

lemma parse_string: "parseValue fp STRING v = Inr (Parsed (string_bytes v) (length v))"
  by (simp add: parseValue_def)

lemma readMemoryBlock_length:
  "readMemoryBlock mem t a n = Some bs \<Longrightarrow> length bs = n"
  by (simp add: readMemoryBlock_def split: option.splits if_splits)

lemma firstScan_attached100:
  "firstScan no_fpu memory100 attached100 INT32 ''100'' ''exact'' =
     Some (Returned (ScanComplete 1) found100)"
  unfolding firstScan_def parse_int32_100 found100_def attached100_def hit100_def memory100_def
  by (simp add: target_eval) (simp add: scan_eval)

lemma nextScan_found100:
  "nextScan no_fpu memory100 found100 INT32 ''100'' ''exact'' =
     Returned (FilteringComplete 1) (found100\<lparr>previousScanResults := [hit100]\<rparr>)"
  unfolding nextScan_def parse_int32_100 found100_def attached100_def hit100_def memory100_def
  by (simp add: target_eval) (simp add: scan_eval)

section \<open>The result ceiling\<close>

lemma scanRegion_bound:
  assumes run:
    "scanRegion fp type comparison targetValue valueSize regionStart buffer offset results totalHits
       = Some y"
  shows "totalHits = length results \<longrightarrow> totalHits < 10000 \<longrightarrow>
     (\<forall>results' hits'. y = Inr (results', hits') \<longrightarrow> hits' = length results' \<and> hits' \<le> 10000)"
proof (rule scanRegion.raw_induct [where P = "\<lambda>_ _ _ _ _ _ _ _ results hits y.
     hits = length results \<longrightarrow> hits < 10000 \<longrightarrow>
     (\<forall>results' hits'. y = Inr (results', hits') \<longrightarrow> hits' = length results' \<and> hits' \<le> 10000)",
     OF _ run])
  fix f :: "fpu \<Rightarrow> ValueType \<Rightarrow> string \<Rightarrow> byte list \<Rightarrow> nat \<Rightarrow> u64 \<Rightarrow> byte list \<Rightarrow> u64 \<Rightarrow>
      ScanResult list \<Rightarrow> nat \<Rightarrow> (fault + ScanResult list \<times> nat) option"
  fix fp type comparison targetValue valueSize regionStart buffer offset results totalHits y
  assume IH: "\<And>fp type comparison targetValue valueSize regionStart buffer offset results totalHits y.
      f fp type comparison targetValue valueSize regionStart buffer offset results totalHits = Some y \<Longrightarrow>
      totalHits = length results \<longrightarrow> totalHits < 10000 \<longrightarrow>
     (\<forall>results' hits'. y = Inr (results', hits') \<longrightarrow> hits' = length results' \<and> hits' \<le> 10000)"
  assume body: "(if offset \<le> of_nat (length buffer) - of_nat valueSize then
        (case foundAt fp type comparison targetValue valueSize buffer (unat offset) of
           Inl f \<Rightarrow> Some (Inl f)
         | Inr found \<Rightarrow>
             if found then
               (case hitAt fp type valueSize regionStart buffer offset of
                  Inl f \<Rightarrow> Some (Inl f)
                | Inr result \<Rightarrow>
                    if totalHits + 1 \<ge> 10000 then Some (Inr (results @ [result], totalHits + 1))
                    else f fp type comparison targetValue valueSize regionStart buffer
                           (offset + 1) (results @ [result]) (totalHits + 1))
             else f fp type comparison targetValue valueSize regionStart buffer
                    (offset + 1) results totalHits)
      else Some (Inr (results, totalHits))) = Some y"
  show "totalHits = length results \<longrightarrow> totalHits < 10000 \<longrightarrow>
     (\<forall>results' hits'. y = Inr (results', hits') \<longrightarrow> hits' = length results' \<and> hits' \<le> 10000)"
  proof (intro impI allI)
    fix results' hits'
    assume h: "totalHits = length results" "totalHits < 10000" "y = Inr (results', hits')"
    show "hits' = length results' \<and> hits' \<le> 10000"
    proof (cases "offset \<le> of_nat (length buffer) - of_nat valueSize")
      case False
      with body h show ?thesis by auto
    next
      case inside: True
      show ?thesis
      proof (cases "foundAt fp type comparison targetValue valueSize buffer (unat offset)")
        case (Inl f)
        with inside body h show ?thesis by simp
      next
        case (Inr found)
        show ?thesis
        proof (cases found)
          case False
          with inside Inr body have "f fp type comparison targetValue valueSize regionStart
              buffer (offset + 1) results totalHits = Some y" by simp
          from IH [OF this] h show ?thesis by auto
        next
          case found: True
          show ?thesis
          proof (cases "hitAt fp type valueSize regionStart buffer offset")
            case (Inl f)
            with inside Inr found body h show ?thesis by simp
          next
            case hit: (Inr result)
            show ?thesis
            proof (cases "totalHits + 1 \<ge> 10000")
              case True
              with inside Inr found hit body h show ?thesis by auto
            next
              case False
              with inside Inr found hit body
              have "f fp type comparison targetValue valueSize regionStart
                buffer (offset + 1) (results @ [result]) (totalHits + 1) = Some y" by simp
              from IH [OF this] h False show ?thesis by auto
            qed
          qed
        qed
      qed
    qed
  qed
qed

lemma scanRegions_bound:
  "scanRegions fp mem type comparison targetValue valueSize i regions results totalHits
     = Some (Inr (results', hits')) \<Longrightarrow>
   totalHits = length results \<Longrightarrow> totalHits < 10000 \<Longrightarrow>
   hits' = length results' \<and> hits' \<le> 10000"
proof (induction regions arbitrary: i results totalHits)
  case Nil
  then show ?case by auto
next
  case (Cons region rest)
  show ?case
  proof (cases "readable region")
    case False
    with Cons.prems Cons.IH [of "i + 1" results totalHits] show ?thesis by simp
  next
    case rd: True
    show ?thesis
    proof (cases "readMemoryBlock mem i (start region) (unat (size_r region))")
      case None
      with rd Cons.prems Cons.IH [of "i + 1" results totalHits] show ?thesis by simp
    next
      case (Some buffer)
      show ?thesis
      proof (cases "scanRegion fp type comparison targetValue valueSize (start region) buffer 0
                      results totalHits")
        case None
        with rd Some Cons.prems show ?thesis by simp
      next
        case inner: (Some y)
        show ?thesis
        proof (cases y)
          case (Inl f)
          with rd Some inner Cons.prems show ?thesis by simp
        next
          case (Inr p)
          obtain r1 h1 where p: "p = (r1, h1)" by (cases p)
          from scanRegion_bound [OF inner] Cons.prems(2,3) Inr p
          have b1: "h1 = length r1 \<and> h1 \<le> 10000" by simp
          show ?thesis
          proof (cases "h1 \<ge> 10000")
            case True
            with rd Some inner Inr p Cons.prems(1) b1 show ?thesis by auto
          next
            case False
            with rd Some inner Inr p Cons.prems(1)
            have "scanRegions fp mem type comparison targetValue valueSize (i + 1) rest r1 h1
                    = Some (Inr (results', hits'))" by simp
            from Cons.IH [OF this] b1 False show ?thesis by simp
          qed
        qed
      qed
    qed
  qed
qed

lemma firstScan_bound:
  assumes "firstScan fp mem s type v comparison = Some (Returned r s')
         \<or> firstScan fp mem s type v comparison = Some (Threw e s')"
  shows "length (scanResults s') \<le> 10000"
proof (cases "parseValue fp type v")
  case (Inl e')
  with assms show ?thesis by (auto simp: firstScan_def)
next
  case (Inr p)
  show ?thesis
  proof (cases p)
    case Unsupported
    with Inr assms show ?thesis by (auto simp: firstScan_def)
  next
    case (Parsed targetValue valueSize)
    show ?thesis
    proof (cases "scanRegions fp mem type comparison targetValue valueSize 0 (memoryRegions s) [] 0")
      case None
      with Inr Parsed assms show ?thesis by (simp add: firstScan_def)
    next
      case (Some y)
      show ?thesis
      proof (cases y)
        case (Inl f)
        with Some Inr Parsed assms show ?thesis by (simp add: firstScan_def)
      next
        case inr: (Inr q)
        obtain results hits where q: "q = (results, hits)" by (cases q)
        from scanRegions_bound [of fp mem type comparison targetValue valueSize 0 "memoryRegions s"
            "[]" 0 results hits] Some inr q
        have "length results \<le> 10000" by simp
        with Some inr q Inr Parsed assms show ?thesis by (auto simp: firstScan_def)
      qed
    qed
  qed
qed

lemma filterPrevious_length:
  "filterPrevious fp mem type comparison targetValue valueSize i prev results = Inr out \<Longrightarrow>
   length out \<le> length results + length prev"
proof (induction prev arbitrary: i results)
  case Nil
  then show ?case by simp
next
  case (Cons p prev)
  then show ?case
    by (fastforce split: option.splits sum.splits if_splits)
qed

lemma nextScan_length:
  assumes "nextScan fp mem s type v comparison = Returned r s'
         \<or> nextScan fp mem s type v comparison = Threw e s'"
  shows "length (scanResults s') \<le> length (scanResults s)"
  using assms
  by (auto simp: nextScan_def Let_def dest: filterPrevious_length
      split: if_splits sum.splits parsed.splits)

lemma attachProcess_results:
  "scanResults (attachProcess os pid s) = [] \<or> attachProcess os pid s = s"
  by (simp add: attachProcess_def split: option.splits prod.splits)

lemma detachProcess_results:
  "scanResults (detachProcess s) = [] \<or> detachProcess s = s"
  by (simp add: detachProcess_def)

lemma reachable_bound: "reachable s \<Longrightarrow> length (scanResults s) \<le> 10000"
proof (induction rule: reachable.induct)
  case r_new
  show ?case by (simp add: new_scanner_def)
next
  case (r_attach s os pid)
  with attachProcess_results [of os pid s] show ?case by auto
next
  case (r_detach s)
  with detachProcess_results [of s] show ?case by auto
next
  case (r_first s fp mem type v comparison r s')
  then show ?case using firstScan_bound by blast
next
  case (r_first_threw s fp mem type v comparison e s')
  then show ?case using firstScan_bound by blast
next
  case (r_next s fp mem type v comparison r s')
  with nextScan_length [of fp mem s type v comparison r s'] show ?case by simp
next
  case (r_next_threw s fp mem type v comparison e s')
  with nextScan_length [of fp mem s type v comparison _ s' e] show ?case by simp
qed

lemma reachable_found100: "reachable found100"
proof -
  have "reachable attached100"
    unfolding attached100_def attached_to_def by (rule r_attach [OF r_new])
  then show ?thesis by (rule r_first [OF _ firstScan_attached100])
qed

text \<open>
  C1. A refine pass never leaves more than 10000 matches: in every state the scanner
  can be in, the result set nextScan produces has at most 10000 entries. (nextScan keeps
  at most one entry per previous result, and the previous results come from a pass that
  respected the ceiling.)
\<close>

theorem nextScan_ceiling:
  assumes "reachable s"
    and "nextScan fp mem s type v comparison = Returned r s'"
  shows "length (scanResults s') \<le> 10000"
proof -
  from assms(2) have "length (scanResults s') \<le> length (scanResults s)"
    using nextScan_length by blast
  also from assms(1) have "\<dots> \<le> 10000" by (rule reachable_bound)
  finally show ?thesis .
qed

theorem nextScan_ceiling_witness:
  "reachable found100 \<and>
   nextScan no_fpu memory100 found100 INT32 ''100'' ''exact'' =
     Returned (FilteringComplete 1) (found100\<lparr>previousScanResults := [hit100]\<rparr>) \<and>
   length (scanResults (found100\<lparr>previousScanResults := [hit100]\<rparr>)) \<le> 10000"
  using reachable_found100 nextScan_found100
    nextScan_ceiling [OF reachable_found100 nextScan_found100]
  by simp

section \<open>Refining never adds an address\<close>

lemma filterPrevious_addresses:
  "filterPrevious fp mem type comparison targetValue valueSize i prev results = Inr out \<Longrightarrow>
   address ` set out \<subseteq> address ` set results \<union> address ` set prev"
proof (induction prev arbitrary: i results)
  case Nil
  then show ?case by simp
next
  case (Cons p prev)
  then show ?case
    by (fastforce simp: refineHit_def split: option.splits sum.splits if_splits)
qed

lemma parse_int32_abc: "parseValue fp INT32 ''abc'' = Inl invalid_argument"
  by (simp add: parse_eval)

lemma nextScan_found50_150:
  "nextScan no_fpu memory50_150 found50_150 INT32 ''100'' ''greater'' =
     Returned (FilteringComplete 1)
       (found50_150\<lparr>previousScanResults := [hit50, hit150], scanResults := [hit150]\<rparr>)"
  unfolding nextScan_def parse_int32_100 found50_150_def hit50_def hit150_def memory50_150_def
  by (simp add: target_eval scan_eval)

text \<open>
  C3. Whatever the predicate and the inputs, every address in the result set nextScan
  leaves was an address of the result set it consumed, which (unless that set was empty
  and nextScan returned at once) is then the previous generation.
\<close>

theorem nextScan_addresses_subset:
  assumes "nextScan fp mem s type v comparison = Returned r s'
         \<or> nextScan fp mem s type v comparison = Threw e s'"
  shows "address ` set (scanResults s') \<subseteq> address ` set (scanResults s) \<and>
         (scanResults s \<noteq> [] \<longrightarrow> previousScanResults s' = scanResults s)"
proof (cases "scanResults s = []")
  case True
  with assms show ?thesis by (simp add: nextScan_def)
next
  case False
  show ?thesis
  proof (cases "parseValue fp type v")
    case (Inl e')
    with False assms show ?thesis by (auto simp: nextScan_def)
  next
    case (Inr p)
    show ?thesis
    proof (cases p)
      case Unsupported
      with Inr False assms show ?thesis by (auto simp: nextScan_def)
    next
      case (Parsed targetValue valueSize)
      show ?thesis
      proof (cases "filterPrevious fp mem type comparison targetValue valueSize 0 (scanResults s) []")
        case (Inl f)
        with Parsed Inr False assms show ?thesis by (simp add: nextScan_def)
      next
        case out: (Inr results)
        from filterPrevious_addresses [OF out]
        have "address ` set results \<subseteq> address ` set (scanResults s)" by simp
        with out Parsed Inr False assms show ?thesis by (auto simp: nextScan_def)
      qed
    qed
  qed
qed

theorem nextScan_addresses_subset_witness:
  "nextScan no_fpu memory50_150 found50_150 INT32 ''100'' ''greater'' =
     Returned (FilteringComplete 1)
       (found50_150\<lparr>previousScanResults := [hit50, hit150], scanResults := [hit150]\<rparr>) \<and>
   address ` set [hit150] \<subseteq> address ` set [hit50, hit150] \<and>
   scanResults found50_150 = [hit50, hit150]"
  using nextScan_found50_150
    nextScan_addresses_subset [where e = invalid_argument, OF disjI1 [OF nextScan_found50_150]]
  by (simp add: found50_150_def)

section \<open>Early returns and failures\<close>

text \<open>
  C7. With an empty current result set nextScan returns at once, saying that there are
  no previous results, and the scanner it leaves is the scanner it was given: the current
  and the previous result sets are untouched.
\<close>

theorem nextScan_empty_unchanged:
  "scanResults s = [] \<Longrightarrow>
   nextScan fp mem s type v comparison = Returned NoPreviousScanResults s"
  by (simp add: nextScan_def)

theorem nextScan_empty_unchanged_witness:
  "scanResults (attached100\<lparr>previousScanResults := [hit100]\<rparr>) = [] \<and>
   nextScan no_fpu memory100 (attached100\<lparr>previousScanResults := [hit100]\<rparr>) INT32 ''100''
       ''changed'' =
     Returned NoPreviousScanResults (attached100\<lparr>previousScanResults := [hit100]\<rparr>)"
proof -
  have e: "scanResults (attached100\<lparr>previousScanResults := [hit100]\<rparr>) = []"
    by (simp add: attached100_def target_eval)
  from e nextScan_empty_unchanged [OF e] show ?thesis by simp
qed

lemma parse_int32_7: "parseValue fp INT32 ''7'' = Inr (Parsed [7, 0, 0, 0] 4)"
  by (simp add: parse_eval eval_nat_numeral)

lemma firstScan_attached100_7:
  "firstScan no_fpu memory100 attached100 INT32 ''7'' ''exact'' =
     Some (Returned (ScanComplete 0) attached100)"
  unfolding firstScan_def parse_int32_7 attached100_def memory100_def
  by (simp add: target_eval scan_eval word_le_nat_alt)

text \<open>
  C9. firstScan empties both result sets at entry, before it parses the literal: what a
  call does is what it does on the scanner with both sets emptied, so nothing of the old
  sets survives it, whether the literal parses or not. Every call that comes back, by
  returning or by an exception, leaves the previous generation empty; and when the
  literal does not parse, the call ends with that exception and both result sets empty,
  whatever they held before.
\<close>

theorem firstScan_clears_first:
  "firstScan fp mem s type v comparison =
     firstScan fp mem (s\<lparr>scanResults := [], previousScanResults := []\<rparr>) type v comparison \<and>
   (firstScan fp mem s type v comparison = Some (Returned r s')
      \<or> firstScan fp mem s type v comparison = Some (Threw e s')
    \<longrightarrow> previousScanResults s' = []) \<and>
   (parseValue fp type v = Inl e' \<longrightarrow>
      firstScan fp mem s type v comparison =
        Some (Threw e' (s\<lparr>scanResults := [], previousScanResults := []\<rparr>)))"
  by (auto simp: firstScan_def Let_def split: sum.splits parsed.splits option.splits prod.splits)

theorem firstScan_clears_first_witness:
  "scanResults (found100\<lparr>previousScanResults := [hit100]\<rparr>) = [hit100] \<and>
   previousScanResults (found100\<lparr>previousScanResults := [hit100]\<rparr>) = [hit100] \<and>
   firstScan no_fpu memory100 (found100\<lparr>previousScanResults := [hit100]\<rparr>) INT32 ''7'' ''exact'' =
     Some (Returned (ScanComplete 0) attached100) \<and>
   scanResults attached100 = [] \<and>
   previousScanResults attached100 = [] \<and>
   parseValue no_fpu INT32 ''abc'' = Inl invalid_argument \<and>
   firstScan no_fpu memory100 (found100\<lparr>previousScanResults := [hit100]\<rparr>) INT32 ''abc'' ''exact'' =
     Some (Threw invalid_argument attached100)"
proof -
  have cleared:
    "(found100\<lparr>previousScanResults := [hit100]\<rparr>)\<lparr>scanResults := [], previousScanResults := []\<rparr>
       = attached100"
    by (simp add: found100_def attached100_def target_eval)
  have empty: "scanResults attached100 = []" "previousScanResults attached100 = []"
    by (simp_all add: attached100_def target_eval)
  have parses:
    "firstScan no_fpu memory100 (found100\<lparr>previousScanResults := [hit100]\<rparr>) INT32 ''7'' ''exact''
       = Some (Returned (ScanComplete 0) attached100)"
    using firstScan_clears_first [where fp = no_fpu and mem = memory100
        and s = "found100\<lparr>previousScanResults := [hit100]\<rparr>" and type = INT32 and v = "''7''"
        and comparison = "''exact''"]
    by (simp add: cleared firstScan_attached100_7)
  have fails:
    "firstScan no_fpu memory100 (found100\<lparr>previousScanResults := [hit100]\<rparr>) INT32 ''abc'' ''exact''
       = Some (Threw invalid_argument attached100)"
  proof -
    have "parseValue no_fpu INT32 ''abc'' = Inl invalid_argument \<longrightarrow>
      firstScan no_fpu memory100 (found100\<lparr>previousScanResults := [hit100]\<rparr>) INT32 ''abc'' ''exact''
        = Some (Threw invalid_argument
            ((found100\<lparr>previousScanResults := [hit100]\<rparr>)
               \<lparr>scanResults := [], previousScanResults := []\<rparr>))"
      using firstScan_clears_first [where fp = no_fpu and mem = memory100
        and s = "found100\<lparr>previousScanResults := [hit100]\<rparr>" and type = INT32 and v = "''abc''"
        and comparison = "''exact''" and e' = invalid_argument]
      by blast
    with parse_int32_abc [of no_fpu] show ?thesis by (simp only: cleared)
  qed
  from parses fails empty parse_int32_abc [of no_fpu] show ?thesis
    by (simp add: found100_def)
qed

section \<open>A region shorter than the value\<close>

text \<open>
  The loop bound \<open>buffer.size() - valueSize\<close> is unsigned: with a buffer shorter than
  the value it wraps to a large number instead of going negative, offset 0 passes the
  test, and the comparison reads \<open>valueSize\<close> bytes of a shorter buffer.
\<close>

lemma scanRegion_short_buffer:
  assumes "length buffer < valueSize"
  shows "scanRegion fp type ''exact'' targetValue valueSize regionStart buffer 0 results totalHits
           = Some (Inl OutOfBoundsRead)"
  using assms by (subst scanRegion.simps) (simp add: foundAt_def memcmp_eq_def window_def)

lemma firstScan_short_int32:
  "firstScan no_fpu memory_short attached_short INT32 ''100'' ''exact'' =
     Some (UndefinedBehaviour OutOfBoundsRead)"
  unfolding firstScan_def parse_int32_100 attached_short_def memory_short_def
  by (simp add: target_eval scanRegion_short_buffer)

lemma firstScan_page_text:
  "firstScan no_fpu memory_page attached_page STRING (replicate 4097 (CHR ''A'')) ''exact'' =
     Some (UndefinedBehaviour OutOfBoundsRead)"
  unfolding firstScan_def parse_string attached_page_def memory_page_def
  by (simp add: target_eval scanRegion_short_buffer)

text \<open>
  C2. The claim is that a readable region shorter than the search width contributes no
  offsets and is never read out of bounds. On a two-byte region and a four-byte search
  value, and on a page of 4096 bytes and a text of 4097 characters, firstScan evaluates
  the predicate at offset 0 and reads past the end of the copied buffer.
\<close>

theorem firstScan_short_region_out_of_bounds:
  "firstScan no_fpu memory_short attached_short INT32 ''100'' ''exact'' =
     Some (UndefinedBehaviour OutOfBoundsRead) \<and>
   firstScan no_fpu memory_page attached_page STRING (replicate 4097 (CHR ''A'')) ''exact'' =
     Some (UndefinedBehaviour OutOfBoundsRead)"
  using firstScan_short_int32 firstScan_page_text by simp

section \<open>changed and unchanged\<close>

text \<open>
  A result stored by a pass holds exactly the bytes of that pass's width: firstScan
  copies \<open>valueSize\<close> bytes of the buffer, nextScan stores the \<open>valueSize\<close> bytes it
  has read.
\<close>

lemma window_length: "window buf off n = Inr w \<Longrightarrow> length w = n"
  by (auto simp: window_def split: if_splits)

lemma hitAt_width:
  "hitAt fp type valueSize regionStart buffer offset = Inr r \<Longrightarrow> length (val r) = valueSize"
  by (auto simp: hitAt_def dest: window_length split: sum.splits)

lemma refineHit_width:
  "refineHit fp type currentValue prevResult = Inr r \<Longrightarrow> length (val r) = length currentValue"
  by (auto simp: refineHit_def split: sum.splits)

lemma filterPrevious_width:
  "filterPrevious fp mem type comparison targetValue valueSize i prev results = Inr out \<Longrightarrow>
   \<forall>r \<in> set results. length (val r) = valueSize \<Longrightarrow>
   \<forall>r \<in> set out. length (val r) = valueSize"
proof (induction prev arbitrary: i results)
  case Nil
  then show ?case by simp
next
  case (Cons p prev)
  show ?case
  proof (cases "readMemoryBlock mem i (address p) valueSize")
    case None
    with Cons.prems Cons.IH [of "i + 1" results] show ?thesis by simp
  next
    case (Some currentValue)
    then have len: "length currentValue = valueSize" by (rule readMemoryBlock_length)
    show ?thesis
    proof (cases "refineFound fp type comparison targetValue valueSize currentValue p")
      case (Inl f)
      with Some Cons.prems show ?thesis by simp
    next
      case (Inr found)
      show ?thesis
      proof (cases found)
        case False
        with Some Inr Cons.prems Cons.IH [of "i + 1" results] show ?thesis by simp
      next
        case True
        show ?thesis
        proof (cases "refineHit fp type currentValue p")
          case (Inl f)
          with Some Inr True Cons.prems show ?thesis by simp
        next
          case hit: (Inr r)
          from refineHit_width [OF hit] len Cons.prems(2)
          have "\<forall>x \<in> set (results @ [r]). length (val x) = valueSize" by simp
          with Some Inr True hit Cons.prems(1) Cons.IH [of "i + 1" "results @ [r]"]
          show ?thesis by simp
        qed
      qed
    qed
  qed
qed

lemma scanRegion_width:
  assumes run:
    "scanRegion fp type comparison targetValue valueSize regionStart buffer offset results totalHits
       = Some y"
  shows "(\<forall>r \<in> set results. length (val r) = valueSize) \<longrightarrow>
     (\<forall>results' hits'. y = Inr (results', hits') \<longrightarrow> (\<forall>r \<in> set results'. length (val r) = valueSize))"
proof (rule scanRegion.raw_induct [where P = "\<lambda>_ _ _ _ valueSize _ _ _ results _ y.
     (\<forall>r \<in> set results. length (val r) = valueSize) \<longrightarrow>
     (\<forall>results' hits'. y = Inr (results', hits') \<longrightarrow> (\<forall>r \<in> set results'. length (val r) = valueSize))",
     OF _ run])
  fix f :: "fpu \<Rightarrow> ValueType \<Rightarrow> string \<Rightarrow> byte list \<Rightarrow> nat \<Rightarrow> u64 \<Rightarrow> byte list \<Rightarrow> u64 \<Rightarrow>
      ScanResult list \<Rightarrow> nat \<Rightarrow> (fault + ScanResult list \<times> nat) option"
  fix fp type comparison targetValue valueSize regionStart buffer offset results totalHits y
  assume IH: "\<And>fp type comparison targetValue valueSize regionStart buffer offset results totalHits y.
      f fp type comparison targetValue valueSize regionStart buffer offset results totalHits = Some y \<Longrightarrow>
      (\<forall>r \<in> set results. length (val r) = valueSize) \<longrightarrow>
     (\<forall>results' hits'. y = Inr (results', hits') \<longrightarrow> (\<forall>r \<in> set results'. length (val r) = valueSize))"
  assume body: "(if offset \<le> of_nat (length buffer) - of_nat valueSize then
        (case foundAt fp type comparison targetValue valueSize buffer (unat offset) of
           Inl f \<Rightarrow> Some (Inl f)
         | Inr found \<Rightarrow>
             if found then
               (case hitAt fp type valueSize regionStart buffer offset of
                  Inl f \<Rightarrow> Some (Inl f)
                | Inr result \<Rightarrow>
                    if totalHits + 1 \<ge> 10000 then Some (Inr (results @ [result], totalHits + 1))
                    else f fp type comparison targetValue valueSize regionStart buffer
                           (offset + 1) (results @ [result]) (totalHits + 1))
             else f fp type comparison targetValue valueSize regionStart buffer
                    (offset + 1) results totalHits)
      else Some (Inr (results, totalHits))) = Some y"
  show "(\<forall>r \<in> set results. length (val r) = valueSize) \<longrightarrow>
     (\<forall>results' hits'. y = Inr (results', hits') \<longrightarrow> (\<forall>r \<in> set results'. length (val r) = valueSize))"
  proof (intro impI allI)
    fix results' hits'
    assume h: "\<forall>r \<in> set results. length (val r) = valueSize" "y = Inr (results', hits')"
    show "\<forall>r \<in> set results'. length (val r) = valueSize"
    proof (cases "offset \<le> of_nat (length buffer) - of_nat valueSize")
      case False
      with body h show ?thesis by auto
    next
      case inside: True
      show ?thesis
      proof (cases "foundAt fp type comparison targetValue valueSize buffer (unat offset)")
        case (Inl f)
        with inside body h show ?thesis by simp
      next
        case (Inr found)
        show ?thesis
        proof (cases found)
          case False
          with inside Inr body have "f fp type comparison targetValue valueSize regionStart
              buffer (offset + 1) results totalHits = Some y" by simp
          from IH [OF this] h show ?thesis by blast
        next
          case found: True
          show ?thesis
          proof (cases "hitAt fp type valueSize regionStart buffer offset")
            case (Inl f)
            with inside Inr found body h show ?thesis by simp
          next
            case hit: (Inr result)
            from hitAt_width [OF hit] h(1)
            have w: "\<forall>r \<in> set (results @ [result]). length (val r) = valueSize" by simp
            show ?thesis
            proof (cases "totalHits + 1 \<ge> 10000")
              case True
              with inside Inr found hit body h(2) w show ?thesis by auto
            next
              case False
              with inside Inr found hit body
              have "f fp type comparison targetValue valueSize regionStart
                buffer (offset + 1) (results @ [result]) (totalHits + 1) = Some y" by simp
              from IH [OF this] h(2) w show ?thesis by blast
            qed
          qed
        qed
      qed
    qed
  qed
qed

lemma scanRegions_width:
  "scanRegions fp mem type comparison targetValue valueSize i regions results totalHits
     = Some (Inr (results', hits')) \<Longrightarrow>
   \<forall>r \<in> set results. length (val r) = valueSize \<Longrightarrow>
   \<forall>r \<in> set results'. length (val r) = valueSize"
proof (induction regions arbitrary: i results totalHits)
  case Nil
  then show ?case by auto
next
  case (Cons region rest)
  show ?case
  proof (cases "readable region")
    case False
    with Cons.prems Cons.IH [of "i + 1" results totalHits] show ?thesis by simp
  next
    case rd: True
    show ?thesis
    proof (cases "readMemoryBlock mem i (start region) (unat (size_r region))")
      case None
      with rd Cons.prems Cons.IH [of "i + 1" results totalHits] show ?thesis by simp
    next
      case (Some buffer)
      show ?thesis
      proof (cases "scanRegion fp type comparison targetValue valueSize (start region) buffer 0
                      results totalHits")
        case None
        with rd Some Cons.prems show ?thesis by simp
      next
        case inner: (Some y)
        show ?thesis
        proof (cases y)
          case (Inl f)
          with rd Some inner Cons.prems show ?thesis by simp
        next
          case (Inr p)
          obtain r1 h1 where p: "p = (r1, h1)" by (cases p)
          from scanRegion_width [OF inner] Cons.prems(2) Inr p
          have w1: "\<forall>r \<in> set r1. length (val r) = valueSize" by simp
          show ?thesis
          proof (cases "h1 \<ge> 10000")
            case True
            with rd Some inner Inr p Cons.prems(1) w1 show ?thesis by auto
          next
            case False
            with rd Some inner Inr p Cons.prems(1)
            have "scanRegions fp mem type comparison targetValue valueSize (i + 1) rest r1 h1
                    = Some (Inr (results', hits'))" by simp
            from Cons.IH [OF this w1] show ?thesis .
          qed
        qed
      qed
    qed
  qed
qed

lemma firstScan_width:
  assumes "parseValue fp type v = Inr (Parsed targetValue valueSize)"
    and "firstScan fp mem s type v comparison = Some (Returned r s')"
  shows "\<forall>x \<in> set (scanResults s'). length (val x) = valueSize"
proof (cases "scanRegions fp mem type comparison targetValue valueSize 0 (memoryRegions s) [] 0")
  case None
  with assms show ?thesis by (simp add: firstScan_def)
next
  case (Some y)
  show ?thesis
  proof (cases y)
    case (Inl f)
    with Some assms show ?thesis by (simp add: firstScan_def)
  next
    case (Inr q)
    obtain results hits where q: "q = (results, hits)" by (cases q)
    from scanRegions_width [of fp mem type comparison targetValue valueSize 0 "memoryRegions s"
        "[]" 0 results hits] Some Inr q
    have "\<forall>x \<in> set results. length (val x) = valueSize" by simp
    with Some Inr q assms show ?thesis by (auto simp: firstScan_def)
  qed
qed

lemma nextScan_width:
  assumes "parseValue fp type v = Inr (Parsed targetValue valueSize)"
    and "nextScan fp mem s type v comparison = Returned r s'"
    and "scanResults s \<noteq> []"
  shows "\<forall>x \<in> set (scanResults s'). length (val x) = valueSize"
proof (cases "filterPrevious fp mem type comparison targetValue valueSize 0 (scanResults s) []")
  case (Inl f)
  with assms show ?thesis by (simp add: nextScan_def)
next
  case (Inr out)
  from filterPrevious_width [OF Inr] have "\<forall>x \<in> set out. length (val x) = valueSize" by simp
  with Inr assms show ?thesis by (auto simp: nextScan_def)
qed

lemma nextScan_HELLO_5:
  "nextScan no_fpu memoryHELLA foundHELLO STRING ''xxxxx'' ''changed'' =
     Returned (FilteringComplete 1)
       (foundHELLO\<lparr>previousScanResults := [hitHELLO], scanResults := [hitHELLA]\<rparr>)"
  unfolding nextScan_def parse_string foundHELLO_def hitHELLO_def hitHELLA_def memoryHELLA_def
  by (simp add: target_eval scan_eval string_bytes_def bytes_string_def)

text \<open>
  C4. In a refine pass, for a previous match that is re-read successfully and whose
  stored bytes have the width of the pass (they have it when the pass that stored them
  had that width; another width is a caller's error): \<open>changed\<close> succeeds exactly when
  the freshly read bytes differ from the match's stored bytes, \<open>unchanged\<close> exactly when
  they are equal, the search value plays no role in either, and exactly one of the two
  succeeds.
\<close>

theorem changed_unchanged_at_width:
  assumes "readMemoryBlock mem i (address prevResult) valueSize = Some currentValue"
    and "length (val prevResult) = valueSize"
  shows "refineFound fp type ''changed'' targetValue valueSize currentValue prevResult
           = Inr (currentValue \<noteq> val prevResult) \<and>
         refineFound fp type ''unchanged'' targetValue valueSize currentValue prevResult
           = Inr (currentValue = val prevResult) \<and>
         refineFound fp type ''changed'' targetValue' valueSize currentValue prevResult
           = refineFound fp type ''changed'' targetValue valueSize currentValue prevResult \<and>
         refineFound fp type ''unchanged'' targetValue' valueSize currentValue prevResult
           = refineFound fp type ''unchanged'' targetValue valueSize currentValue prevResult \<and>
         (refineFound fp type ''changed'' targetValue valueSize currentValue prevResult = Inr True)
           \<noteq> (refineFound fp type ''unchanged'' targetValue valueSize currentValue prevResult
                 = Inr True)"
  using assms(2) readMemoryBlock_length [OF assms(1)]
  by (auto simp: refineFound_def memcmp_eq_def window_def)

theorem changed_unchanged_at_width_witness:
  "readMemoryBlock memoryHELLA 0 (address hitHELLO) 5 = Some (string_bytes ''HELLA'') \<and>
   length (val hitHELLO) = 5 \<and>
   refineFound no_fpu STRING ''changed'' (string_bytes ''xxxxx'') 5 (string_bytes ''HELLA'') hitHELLO
     = Inr True \<and>
   refineFound no_fpu STRING ''unchanged'' (string_bytes ''xxxxx'') 5 (string_bytes ''HELLA'') hitHELLO
     = Inr False"
proof -
  have rd: "readMemoryBlock memoryHELLA 0 (address hitHELLO) 5 = Some (string_bytes ''HELLA'')"
    by (simp add: memoryHELLA_def hitHELLO_def target_eval string_bytes_def)
  have len: "length (val hitHELLO) = 5"
    by (simp add: hitHELLO_def string_bytes_def)
  from changed_unchanged_at_width [OF rd len, of no_fpu STRING "string_bytes ''xxxxx''"] rd len
  show ?thesis by (simp add: hitHELLO_def string_bytes_def)
qed

section \<open>Literals that do not fit the kind\<close>

lemma le_bytes_unfold:
  "le_bytes 1 v = [word_of_int v]"
  "le_bytes 2 v = [word_of_int v, word_of_int (v div 256)]"
  "le_bytes 4 v = [word_of_int v, word_of_int (v div 256), word_of_int (v div 256 div 256),
      word_of_int (v div 256 div 256 div 256)]"
  by (simp_all add: eval_nat_numeral)

lemma literal_300: "literal_value ''300'' = Some 300"
  by (simp add: parse_eval)

lemma literal_2_32: "literal_value ''4294967296'' = Some 4294967296"
  by (simp add: parse_eval)

lemma parse_byte_300: "parseValue fp BYTE ''300'' = Inr (Parsed [44] 1)"
  by (simp add: parse_eval le_bytes_unfold)

lemma firstScan_byte_300:
  "firstScan no_fpu memory44 attached44 BYTE ''300'' ''exact'' =
     Some (Returned (ScanComplete 1) (attached44\<lparr>scanResults := [hit44]\<rparr>))"
  unfolding firstScan_def parse_byte_300 attached44_def hit44_def memory44_def
  by (simp add: target_eval scan_eval word_le_nat_alt)

text \<open>
  C5, as claimed: a literal whose value overflows the kind's width is rejected and never
  truncated. For kind Byte and literal 300 the conversion yields the one byte 44, and
  the scan runs and reports the address that holds 44.
\<close>

theorem byte_300_truncated_counterexample:
  "literal_value ''300'' = Some 300 \<and>
   parseValue no_fpu BYTE ''300'' = Inr (Parsed [44] 1) \<and>
   firstScan no_fpu memory44 attached44 BYTE ''300'' ''exact'' =
     Some (Returned (ScanComplete 1) (attached44\<lparr>scanResults := [hit44]\<rparr>))"
  using literal_300 parse_byte_300 [of no_fpu] firstScan_byte_300 by simp

text \<open>
  C5, amended. For a literal that starts with a number \<open>n\<close>: when \<open>n\<close> is outside the
  32-bit \<open>int\<close> range (kinds Byte, Int16 and Int32, converted by \<open>std::stoi\<close>) or outside
  the 64-bit range (kind Int64), the conversion throws \<open>out_of_range\<close> and the scan or
  refine call ends there, whatever the target's memory: firstScan has emptied both
  result sets, nextScan has moved the current set to the previous one. When \<open>n\<close> is
  inside the \<open>int\<close> range, kinds Byte and Int16 keep its low one or two bytes.
\<close>

theorem integer_literal_overflow:
  assumes "literal_value v = Some n"
  shows "((type \<in> {BYTE, INT16, INT32} \<and> (n < - (2 ^ 31) \<or> 2 ^ 31 - 1 < n)) \<or>
          (type = INT64 \<and> (n < - (2 ^ 63) \<or> 2 ^ 63 - 1 < n)) \<longrightarrow>
            firstScan fp mem s type v comparison =
              Some (Threw out_of_range (s\<lparr>scanResults := [], previousScanResults := []\<rparr>)) \<and>
            (scanResults s \<noteq> [] \<longrightarrow>
               nextScan fp mem s type v comparison =
                 Threw out_of_range (s\<lparr>previousScanResults := scanResults s, scanResults := []\<rparr>))) \<and>
         (- (2 ^ 31) \<le> n \<and> n \<le> 2 ^ 31 - 1 \<longrightarrow>
            parseValue fp BYTE v = Inr (Parsed (le_bytes 1 n) 1) \<and>
            parseValue fp INT16 v = Inr (Parsed (le_bytes 2 n) 2))"
  using assms
  by (auto simp: firstScan_def nextScan_def parseValue_def stoi_def stoll_def Let_def)

theorem integer_literal_overflow_witness:
  "literal_value ''4294967296'' = Some 4294967296 \<and>
   firstScan no_fpu memory100 found100 INT32 ''4294967296'' ''exact'' =
     Some (Threw out_of_range (found100\<lparr>scanResults := [], previousScanResults := []\<rparr>)) \<and>
   nextScan no_fpu memory100 found100 INT32 ''4294967296'' ''exact'' =
     Threw out_of_range (found100\<lparr>previousScanResults := [hit100], scanResults := []\<rparr>) \<and>
   literal_value ''300'' = Some 300 \<and>
   parseValue no_fpu BYTE ''300'' = Inr (Parsed [44] 1)"
  using literal_2_32 literal_300
    integer_literal_overflow [OF literal_2_32, of INT32 no_fpu memory100 found100 "''exact''"]
    integer_literal_overflow [OF literal_300, of INT32 no_fpu memory100 found100 "''exact''"]
  by (simp add: found100_def le_bytes_unfold)

section \<open>Ordering predicates on text\<close>

lemma unat_succ:
  fixes offset lim :: u64
  assumes "offset \<le> lim" and "lim \<noteq> - 1"
  shows "unat (offset + 1) = unat offset + 1"
  using assms
  by (metis (no_types, lifting) inc_less_eq_iff inc_less_eq_self_imp_top leD
    linorder_le_cases unat_plus_simple unsigned_1)

lemma bound_wraps_to_top:
  fixes a b :: u64
  shows "(a - b = - 1) = (b = a + 1)"
  by (metis (no_types, lifting) add.inverse_inverse add_diff_cancel uminus_add_conv_diff)

text \<open>
  When no offset matches, the offset loop ends with nothing added, provided its bound
  has not wrapped to the largest \<open>size_t\<close>.
\<close>

lemma scanRegion_never_found:
  assumes nf: "\<And>off. foundAt fp type comparison targetValue valueSize buffer off = Inr False"
    and lim: "of_nat (length buffer) - of_nat valueSize \<noteq> (- 1 :: u64)"
  shows "scanRegion fp type comparison targetValue valueSize regionStart buffer offset results
           totalHits = Some (Inr (results, totalHits))"
proof (induction "unat (of_nat (length buffer) - of_nat valueSize :: u64) + 1 - unat offset"
    arbitrary: offset rule: less_induct)
  case less
  show ?case
  proof (cases "offset \<le> of_nat (length buffer) - of_nat valueSize")
    case False
    then show ?thesis by (subst scanRegion.simps) simp
  next
    case True
    from unat_succ [OF True lim] True
    have "unat (of_nat (length buffer) - of_nat valueSize :: u64) + 1 - unat (offset + 1)
        < unat (of_nat (length buffer) - of_nat valueSize :: u64) + 1 - unat offset"
      by (simp add: word_le_nat_alt)
    from less [OF this] True nf show ?thesis
      by (subst scanRegion.simps) simp
  qed
qed

text \<open>When the bound has wrapped to the largest \<open>size_t\<close>, the same loop never ends.\<close>

lemma scanRegion_never_returns:
  assumes nf: "\<And>off. foundAt fp type comparison targetValue valueSize buffer off = Inr False"
    and lim: "of_nat (length buffer) - of_nat valueSize = (- 1 :: u64)"
  shows "scanRegion fp type comparison targetValue valueSize regionStart buffer offset results
           totalHits = None"
proof (cases "scanRegion fp type comparison targetValue valueSize regionStart buffer offset results
           totalHits")
  case None
  then show ?thesis .
next
  case (Some y)
  have "\<not> ((\<forall>off. foundAt fp type comparison targetValue valueSize buffer off = Inr False) \<and>
           of_nat (length buffer) - of_nat valueSize = (- 1 :: u64))"
  proof (rule scanRegion.raw_induct [where P = "\<lambda>fp type comparison targetValue valueSize _ buffer _ _ _ _.
       \<not> ((\<forall>off. foundAt fp type comparison targetValue valueSize buffer off = Inr False) \<and>
           of_nat (length buffer) - of_nat valueSize = (- 1 :: u64))", OF _ Some])
    fix f :: "fpu \<Rightarrow> ValueType \<Rightarrow> string \<Rightarrow> byte list \<Rightarrow> nat \<Rightarrow> u64 \<Rightarrow> byte list \<Rightarrow> u64 \<Rightarrow>
        ScanResult list \<Rightarrow> nat \<Rightarrow> (fault + ScanResult list \<times> nat) option"
    fix fp type comparison targetValue valueSize regionStart buffer offset results totalHits y
    assume IH: "\<And>fp type comparison targetValue valueSize regionStart buffer offset results totalHits y.
        f fp type comparison targetValue valueSize regionStart buffer offset results totalHits = Some y \<Longrightarrow>
        \<not> ((\<forall>off. foundAt fp type comparison targetValue valueSize buffer off = Inr False) \<and>
           of_nat (length buffer) - of_nat valueSize = (- 1 :: u64))"
    assume body: "(if offset \<le> of_nat (length buffer) - of_nat valueSize then
          (case foundAt fp type comparison targetValue valueSize buffer (unat offset) of
             Inl f \<Rightarrow> Some (Inl f)
           | Inr found \<Rightarrow>
               if found then
                 (case hitAt fp type valueSize regionStart buffer offset of
                    Inl f \<Rightarrow> Some (Inl f)
                  | Inr result \<Rightarrow>
                      if totalHits + 1 \<ge> 10000 then Some (Inr (results @ [result], totalHits + 1))
                      else f fp type comparison targetValue valueSize regionStart buffer
                             (offset + 1) (results @ [result]) (totalHits + 1))
               else f fp type comparison targetValue valueSize regionStart buffer
                      (offset + 1) results totalHits)
        else Some (Inr (results, totalHits))) = Some y"
    show "\<not> ((\<forall>off. foundAt fp type comparison targetValue valueSize buffer off = Inr False) \<and>
           of_nat (length buffer) - of_nat valueSize = (- 1 :: u64))"
    proof
      assume c: "(\<forall>off. foundAt fp type comparison targetValue valueSize buffer off = Inr False) \<and>
           of_nat (length buffer) - of_nat valueSize = (- 1 :: u64)"
      with body have "f fp type comparison targetValue valueSize regionStart buffer
                      (offset + 1) results totalHits = Some y" by simp
      from IH [OF this] c show False by simp
    qed
  qed
  with nf lim show ?thesis by simp
qed

lemma scanRegions_never_found:
  assumes nf: "\<And>buffer off. foundAt fp type comparison targetValue valueSize buffer off = Inr False"
    and lim: "\<forall>region \<in> set regions. of_nat valueSize \<noteq> size_r region + 1"
  shows "scanRegions fp mem type comparison targetValue valueSize i regions results totalHits
           = Some (Inr (results, totalHits))"
  using lim
proof (induction regions arbitrary: i)
  case Nil
  show ?case by simp
next
  case (Cons region rest)
  have rest: "scanRegions fp mem type comparison targetValue valueSize (i + 1) rest results totalHits
           = Some (Inr (results, totalHits))"
    using Cons by simp
  show ?case
  proof (cases "readMemoryBlock mem i (start region) (unat (size_r region))")
    case None
    with rest show ?thesis by simp
  next
    case (Some buffer)
    then have "length buffer = unat (size_r region)"
      by (rule readMemoryBlock_length)
    with Cons.prems have "of_nat (length buffer) - of_nat valueSize \<noteq> (- 1 :: u64)"
      by (simp add: bound_wraps_to_top)
    from scanRegion_never_found [OF nf this] Some rest show ?thesis by simp
  qed
qed

lemma filterPrevious_never_found:
  assumes nf: "\<And>currentValue prevResult.
      refineFound fp type comparison targetValue valueSize currentValue prevResult = Inr False"
  shows "filterPrevious fp mem type comparison targetValue valueSize i prev results = Inr results"
  by (induction prev arbitrary: i) (simp_all add: nf split: option.splits)

lemma string_order_never_found:
  assumes "comparison = ''greater'' \<or> comparison = ''less''"
  shows "foundAt fp STRING comparison targetValue valueSize buffer off = Inr False"
    and "refineFound fp STRING comparison targetValue valueSize currentValue prevResult = Inr False"
  using assms by (auto simp: foundAt_def refineFound_def compareTyped_def)

lemma firstScan_string_order:
  assumes "comparison = ''greater'' \<or> comparison = ''less''"
    and "\<forall>region \<in> set (memoryRegions s). of_nat (length v) \<noteq> size_r region + 1"
  shows "firstScan fp mem s STRING v comparison =
           Some (Returned (ScanComplete 0) (s\<lparr>scanResults := [], previousScanResults := []\<rparr>))"
proof -
  have "scanRegions fp mem STRING comparison (string_bytes v) (length v) 0 (memoryRegions s) [] 0
          = Some (Inr ([], 0))"
    by (rule scanRegions_never_found [OF string_order_never_found(1) [OF assms(1)] assms(2)])
  then show ?thesis
    by (simp add: firstScan_def parseValue_def)
qed

lemma nextScan_string_order:
  assumes "comparison = ''greater'' \<or> comparison = ''less''"
    and "scanResults s \<noteq> []"
  shows "nextScan fp mem s STRING v comparison =
           Returned (FilteringComplete 0)
             (s\<lparr>previousScanResults := scanResults s, scanResults := []\<rparr>)"
proof -
  have "filterPrevious fp mem STRING comparison (string_bytes v) (length v) 0
      (scanResults s) [] = Inr []"
    by (rule filterPrevious_never_found [OF string_order_never_found(2) [OF assms(1)]])
  with assms(2) show ?thesis
    by (simp add: nextScan_def parseValue_def)
qed

text \<open>
  A text of two characters ordered against a readable region of one byte: the bound
  \<open>1 - 2\<close> wraps to the largest \<open>size_t\<close> and the scan does not return.
\<close>

lemma firstScan_string_order_hangs:
  "firstScan no_fpu memory_one attached_one STRING ''AB'' ''greater'' = None"
proof -
  have "scanRegion no_fpu STRING ''greater'' (string_bytes ''AB'') (length ''AB'') 0x7000 [65] 0 [] 0
          = None"
    by (rule scanRegion_never_returns) (simp_all add: string_order_never_found)
  then show ?thesis
    by (simp add: firstScan_def parseValue_def attached_one_def memory_one_def target_eval)
qed

text \<open>
  C6, as claimed: \<open>greater\<close> or \<open>less\<close> on text is rejected up front and never ends
  by silently producing no matches. The command line passes both requests on, the scan
  walks the region and the refine pass re-reads the previous address, and each ends
  normally with an empty result set.
\<close>

theorem text_ordering_not_rejected_counterexample:
  "scanMemory no_fpu memoryABCD attachedABCD [''string'', ''AB'', ''greater''] =
     Ran (Some (Returned (ScanComplete 0)
            (attachedABCD\<lparr>scanResults := [], previousScanResults := []\<rparr>))) \<and>
   nextScan_cmd no_fpu memoryHELLA foundHELLO [''string'', ''HELLO'', ''less''] =
     Ran (Returned (FilteringComplete 0)
            (foundHELLO\<lparr>previousScanResults := [hitHELLO], scanResults := []\<rparr>))"
proof -
  have a: "isAttached attachedABCD" "isAttached foundHELLO" "scanResults foundHELLO = [hitHELLO]"
    by (simp_all add: attachedABCD_def foundHELLO_def target_eval)
  have r: "\<forall>region \<in> set (memoryRegions attachedABCD). of_nat (length ''AB'') \<noteq> size_r region + 1"
    by (simp add: attachedABCD_def target_eval)
  from firstScan_string_order [OF disjI1 [OF refl] r, of no_fpu memoryABCD]
    nextScan_string_order [OF disjI2 [OF refl], of foundHELLO no_fpu memoryHELLA "''HELLO''"] a
  show ?thesis
    by (simp add: scanMemory_def nextScan_cmd_def tolower_def typeOfName_def)
qed

text \<open>
  C6, amended. \<open>greater\<close> or \<open>less\<close> on text is not rejected: firstScan empties both
  result sets, walks the regions and returns with no match, and nextScan moves the
  current set to the previous one and returns with no match; neither falls back to a
  comparison of bytes. For firstScan this holds when no region is exactly one byte
  shorter than the literal.
\<close>

theorem text_ordering_finds_nothing:
  assumes "comparison = ''greater'' \<or> comparison = ''less''"
    and "\<forall>region \<in> set (memoryRegions s). of_nat (length v) \<noteq> size_r region + 1"
  shows "firstScan fp mem s STRING v comparison =
           Some (Returned (ScanComplete 0) (s\<lparr>scanResults := [], previousScanResults := []\<rparr>)) \<and>
         (scanResults s \<noteq> [] \<longrightarrow>
            nextScan fp mem s STRING v comparison =
              Returned (FilteringComplete 0)
                (s\<lparr>previousScanResults := scanResults s, scanResults := []\<rparr>))"
  using firstScan_string_order [OF assms] nextScan_string_order [OF assms(1)] by simp

theorem text_ordering_finds_nothing_witness:
  "map size_r (memoryRegions foundHELLO) = [5] \<and>
   (of_nat (length ''HELLO'') :: u64) \<noteq> 5 + 1 \<and>
   firstScan no_fpu memoryHELLA foundHELLO STRING ''HELLO'' ''less'' =
     Some (Returned (ScanComplete 0) (foundHELLO\<lparr>scanResults := [], previousScanResults := []\<rparr>)) \<and>
   nextScan no_fpu memoryHELLA foundHELLO STRING ''HELLO'' ''less'' =
     Returned (FilteringComplete 0)
       (foundHELLO\<lparr>previousScanResults := [hitHELLO], scanResults := []\<rparr>)"
proof -
  have r: "\<forall>region \<in> set (memoryRegions foundHELLO).
             of_nat (length ''HELLO'') \<noteq> size_r region + 1"
    by (simp add: foundHELLO_def target_eval)
  from text_ordering_finds_nothing [OF disjI2 [OF refl] r, of no_fpu memoryHELLA]
  show ?thesis by (simp add: foundHELLO_def target_eval)
qed

section \<open>The save file\<close>

lemma firstScan_HELLO:
  "firstScan no_fpu memoryHELLO (attached_to [region_of 0x4000 5]) STRING ''HELLO'' ''exact'' =
     Some (Returned (ScanComplete 1) foundHELLO)"
  unfolding firstScan_def parse_string foundHELLO_def hitHELLO_def memoryHELLO_def
  by (simp add: target_eval scan_eval string_bytes_def bytes_string_def word_le_nat_alt)

lemma nextScan_NL:
  "nextScan no_fpu memoryNL foundHELLO STRING ''HELLO'' ''changed'' =
     Returned (FilteringComplete 1) foundNL"
  unfolding nextScan_def parse_string foundNL_def foundHELLO_def hitHELLO_def hitNL_def memoryNL_def
  by (simp add: target_eval scan_eval string_bytes_def bytes_string_def)

lemma parse_byte_0: "parseValue fp BYTE ''0'' = Inr (Parsed [0] 1)"
  by (simp add: parse_eval eval_nat_numeral)

lemma firstScan_zeros:
  "firstScan no_fpu memory_zeros attached_zeros BYTE ''0'' ''exact'' =
     Some (Returned (ScanComplete 11) found_zeros)"
  unfolding firstScan_def parse_byte_0 found_zeros_def attached_zeros_def memory_zeros_def
  by (simp add: target_eval scan_eval word_le_nat_alt)

lemma split_lines_piece:
  "line_feed \<notin> set l \<Longrightarrow> split_lines cur (l @ line_feed # rest) = (cur @ l) # split_lines [] rest"
  by (induction l arbitrary: cur) auto

lemma file_lines_endl_pieces:
  "\<forall>p \<in> set ps. line_feed \<notin> set p \<Longrightarrow> file_lines (endl_pieces ps) = ps"
proof (induction ps)
  case Nil
  show ?case by (simp add: file_lines_def endl_pieces_def)
next
  case (Cons p ps)
  then have "split_lines [] (endl_pieces ps) = ps" by (simp add: file_lines_def)
  with Cons.prems split_lines_piece [of p "[]" "endl_pieces ps"]
  show ?case by (simp add: file_lines_def endl_pieces_def)
qed

lemma save_found100:
  "map_option file_lines (saveResults found100 True 1700000000) =
     Some [''# MacMemory Scan Results'',
           ''# Process: game (PID: 42)'',
           ''# Timestamp: 1700000000'',
           ''# Results: 1'',
           ''# Format: ID,Address,Type,Value,Description'',
           ''0,0x1000,2,64000000,100'']"
  by (simp add: saveResults_def headerLines_def found100_def attached100_def hit100_def target_eval
      resultLine_def hex_byte_def ordinal_def dec_int_def dec_nat.simps hex_nat.simps char_eval
      file_lines_def endl_pieces_def line_feed_def)

lemma save_foundNL:
  "map_option file_lines (saveResults foundNL True 1700000000) =
     Some [''# MacMemory Scan Results'',
           ''# Process: game (PID: 42)'',
           ''# Timestamp: 1700000000'',
           ''# Results: 1'',
           ''# Format: ID,Address,Type,Value,Description'',
           ''0,0x4000,6,48454c0a23,'' @ [CHR 0x22] @ ''HEL'',
           [CHR ''#'', CHR 0x22]]"
  by (simp add: saveResults_def headerLines_def foundNL_def foundHELLO_def hitNL_def target_eval
      resultLine_def hex_byte_def ordinal_def dec_int_def dec_nat.simps hex_nat.simps char_eval
      file_lines_def endl_pieces_def line_feed_def)

lemma save_zeros_last:
  "map_option last (map_option file_lines (saveResults found_zeros True 1700000000)) =
     Some ''a,0x800a,0,00,0''"
  by (simp add: saveResults_def headerLines_def found_zeros_def attached_zeros_def target_eval
      resultLine_def hex_byte_def ordinal_def dec_int_def dec_nat.simps hex_nat.simps char_eval
      file_lines_def endl_pieces_def line_feed_def)


lemma reachable_foundNL: "reachable foundNL"
proof -
  have "reachable (attached_to [region_of 0x4000 5])"
    unfolding attached_to_def by (rule r_attach [OF r_new])
  then have "reachable foundHELLO" by (rule r_first [OF _ firstScan_HELLO])
  then show ?thesis by (rule r_next [OF _ nextScan_NL])
qed

lemma reachable_found_zeros: "reachable found_zeros"
proof -
  have "reachable attached_zeros"
    unfolding attached_zeros_def attached_to_def by (rule r_attach [OF r_new])
  then show ?thesis by (rule r_first [OF _ firstScan_zeros])
qed

lemma found100_results: "scanResults found100 = [hit100]"
  by (simp add: found100_def)

text \<open>
  C8, as claimed: the file is exactly four lines that begin with \<open>#\<close>, then one line
  per match. The file saved for one match has five such lines: after the title, the
  process, the timestamp and the count comes a line that names the fields. A text match
  whose bytes hold a line feed is written on two lines of the file, here the second of
  them beginning with \<open>#\<close>. And in a file of eleven matches the last one carries the id
  \<open>a\<close>.
\<close>

theorem saveResults_header_counterexample:
  "map_option file_lines (saveResults found100 True 1700000000) =
     Some [''# MacMemory Scan Results'',
           ''# Process: game (PID: 42)'',
           ''# Timestamp: 1700000000'',
           ''# Results: 1'',
           ''# Format: ID,Address,Type,Value,Description'',
           ''0,0x1000,2,64000000,100''] \<and>
   map_option hash_lines (map_option file_lines (saveResults found100 True 1700000000)) = Some 5 \<and>
   reachable foundNL \<and>
   scanResults foundNL = [hitNL] \<and>
   map_option file_lines (saveResults foundNL True 1700000000) =
     Some [''# MacMemory Scan Results'',
           ''# Process: game (PID: 42)'',
           ''# Timestamp: 1700000000'',
           ''# Results: 1'',
           ''# Format: ID,Address,Type,Value,Description'',
           ''0,0x4000,6,48454c0a23,'' @ [CHR 0x22] @ ''HEL'',
           [CHR ''#'', CHR 0x22]] \<and>
   reachable found_zeros \<and>
   length (scanResults found_zeros) = 11 \<and>
   map_option last (map_option file_lines (saveResults found_zeros True 1700000000)) =
     Some ''a,0x800a,0,00,0''"
proof -
  have hashes:
    "map_option hash_lines (map_option file_lines (saveResults found100 True 1700000000)) = Some 5"
    by (simp only: save_found100) (simp add: hash_lines_def)
  have r1: "scanResults foundNL = [hitNL]" by (simp add: foundNL_def)
  have r2: "length (scanResults found_zeros) = 11" by (simp add: found_zeros_def)
  show ?thesis
    by (intro conjI save_found100 hashes reachable_foundNL r1 save_foundNL reachable_found_zeros
        r2 save_zeros_last)
qed

lemma of_char_digit:
  "d < 16 \<Longrightarrow> (of_char (digit_char d) :: nat) = (if d < 10 then 48 + d else 87 + d)"
  by (simp add: digit_char_def)

lemma digit_char_plain:
  assumes "d < 16"
  shows "digit_char d \<noteq> line_feed" and "digit_char d \<noteq> CHR ''#''"
proof -
  have "(of_char (digit_char d) :: nat) \<noteq> 10" "(of_char (digit_char d) :: nat) \<noteq> 35"
    using assms by (simp_all add: of_char_digit)
  then show "digit_char d \<noteq> line_feed" "digit_char d \<noteq> CHR ''#''"
    by (auto simp: line_feed_def)
qed

lemma digits_plain: "line_feed \<notin> digits" "CHR ''#'' \<notin> digits"
proof -
  show "line_feed \<notin> digits"
  proof
    assume "line_feed \<in> digits"
    then obtain d where "d < 16" "line_feed = digit_char d" by (auto simp: digits_def)
    with digit_char_plain(1) [of d] show False by simp
  qed
  show "CHR ''#'' \<notin> digits"
  proof
    assume "CHR ''#'' \<in> digits"
    then obtain d where "d < 16" "CHR ''#'' = digit_char d" by (auto simp: digits_def)
    with digit_char_plain(2) [of d] show False by simp
  qed
qed

lemma dec_nat_digits: "dec_nat n \<noteq> [] \<and> set (dec_nat n) \<subseteq> digits"
proof (induction n rule: dec_nat.induct)
  case (1 n)
  show ?case
  proof (cases "n < 10")
    case True
    then show ?thesis by (subst (1 2) dec_nat.simps) (simp add: digits_def)
  next
    case False
    have "n mod 10 < 16" by (rule less_trans [of _ 10]) simp_all
    then have "digit_char (n mod 10) \<in> digits" by (simp add: digits_def)
    with False 1 show ?thesis by (subst (1 2) dec_nat.simps) simp
  qed
qed

lemma hex_nat_digits: "hex_nat n \<noteq> [] \<and> set (hex_nat n) \<subseteq> digits"
proof (induction n rule: hex_nat.induct)
  case (1 n)
  show ?case
  proof (cases "n < 16")
    case True
    then show ?thesis by (subst (1 2) hex_nat.simps) (simp add: digits_def)
  next
    case False
    have "digit_char (n mod 16) \<in> digits" by (simp add: digits_def)
    with False 1 show ?thesis by (subst (1 2) hex_nat.simps) simp
  qed
qed

lemma hex_byte_digits: "set (hex_byte b) \<subseteq> digits"
proof -
  have "unat b < 2 ^ LENGTH(8)" by (rule unsigned_less)
  then have "unat b < 256" by simp
  then have "unat b div 16 < 16" by simp
  then show ?thesis by (simp add: hex_byte_def digits_def)
qed

lemma dec_int_plain: "line_feed \<notin> set (dec_int i)"
  using dec_nat_digits digits_plain(1) by (auto simp: dec_int_def line_feed_def)

lemma headerLines_plain:
  assumes "line_feed \<notin> set (targetName s)"
  shows "\<forall>h \<in> set (headerLines s now). line_feed \<notin> set h"
  using assms dec_int_plain dec_nat_digits digits_plain(1)
  by (auto simp: headerLines_def line_feed_def)

lemma resultLine_plain:
  assumes "line_feed \<notin> set (description r)"
  shows "line_feed \<notin> set (resultLine b i r)"
proof -
  have "line_feed \<notin> set (concat (map hex_byte (val r)))"
    using hex_byte_digits digits_plain(1) by auto
  with assms dec_nat_digits hex_nat_digits digits_plain(1) show ?thesis
    by (auto simp: resultLine_def line_feed_def)
qed

lemma resultLine_no_hash: "take 1 (resultLine b i r) \<noteq> ''#''"
proof -
  obtain c cs where "(if b then hex_nat i else dec_nat i) = c # cs" "c \<in> digits"
    using dec_nat_digits [of i] hex_nat_digits [of i]
    by (cases "if b then hex_nat i else dec_nat i") (auto split: if_splits)
  with digits_plain(2) show ?thesis by (auto simp: resultLine_def)
qed

lemma small_index: "i < 10 \<Longrightarrow> hex_nat i = dec_nat i"
  by (simp add: hex_nat.simps dec_nat.simps)

lemma length_resultLines: "length (resultLines h k rs) = length rs"
  by (induction rs arbitrary: h k) simp_all

lemma resultLines_nth:
  "i < length rs \<Longrightarrow> \<exists>b. resultLines h k rs ! i = resultLine b (k + i) (rs ! i)"
proof (induction rs arbitrary: h k i)
  case Nil
  then show ?case by simp
next
  case (Cons r rs)
  show ?case
  proof (cases i)
    case 0
    then show ?thesis by auto
  next
    case (Suc j)
    with Cons.prems have "j < length rs" by simp
    from Cons.IH [OF this, of "val r \<noteq> []" "k + 1"] Suc show ?thesis by simp
  qed
qed

lemma resultLines_set:
  "l \<in> set (resultLines h k rs) \<Longrightarrow> \<exists>b i r. r \<in> set rs \<and> l = resultLine b i r"
proof (induction rs arbitrary: h k)
  case Nil
  then show ?case by simp
next
  case (Cons a rs)
  from Cons.prems
  have "l = resultLine h k a \<or> l \<in> set (resultLines (val a \<noteq> []) (k + 1) rs)" by simp
  then show ?case
  proof
    assume "l = resultLine h k a"
    then show ?thesis by auto
  next
    assume "l \<in> set (resultLines (val a \<noteq> []) (k + 1) rs)"
    from Cons.IH [OF this] show ?thesis by auto
  qed
qed

text \<open>
  C8, amended. For a non-empty result set and a file that could be opened, when neither
  the process name nor the description of a match holds a line feed, the lines of the
  file are five lines that begin with \<open>#\<close> (title, process, timestamp, result count,
  field names) followed by one line per match, none of which begins with \<open>#\<close>, in the
  order of the result set and of the form \<open>id,0xADDRESS,kindOrdinal,hexbytes,description\<close>;
  for the first ten matches \<open>id\<close> is the index of the match in base 10.
\<close>

theorem saveResults_layout:
  assumes "scanResults s \<noteq> []"
    and "line_feed \<notin> set (targetName s)"
    and "\<forall>r \<in> set (scanResults s). line_feed \<notin> set (description r)"
  shows "\<exists>content records.
     saveResults s True now = Some content \<and>
     file_lines content = headerLines s now @ records \<and>
     length (headerLines s now) = 5 \<and>
     (\<forall>h \<in> set (headerLines s now). take 1 h = ''#'') \<and>
     (\<forall>l \<in> set records. take 1 l \<noteq> ''#'') \<and>
     length records = length (scanResults s) \<and>
     (\<forall>i < length records. \<exists>ident.
        records ! i =
          ident @ '','' @ ''0x'' @ hex_nat (unat (address (scanResults s ! i))) @ '','' @
          dec_nat (ordinal (vtype (scanResults s ! i))) @ '','' @
          concat (map hex_byte (val (scanResults s ! i))) @ '','' @
          description (scanResults s ! i) \<and>
        (i < 10 \<longrightarrow> ident = dec_nat i))"
proof (intro exI conjI)
  show "saveResults s True now =
          Some (endl_pieces (headerLines s now @ resultLines False 0 (scanResults s)))"
    using assms(1) by (simp add: saveResults_def)
  have "\<forall>p \<in> set (headerLines s now @ resultLines False 0 (scanResults s)). line_feed \<notin> set p"
    using headerLines_plain [OF assms(2), of now] assms(3) resultLine_plain
    by (auto dest!: resultLines_set)
  then show "file_lines (endl_pieces (headerLines s now @ resultLines False 0 (scanResults s)))
      = headerLines s now @ resultLines False 0 (scanResults s)"
    by (rule file_lines_endl_pieces)
  show "length (headerLines s now) = 5" by (simp add: headerLines_def)
  show "\<forall>h \<in> set (headerLines s now). take 1 h = ''#''" by (simp add: headerLines_def)
  show "\<forall>l \<in> set (resultLines False 0 (scanResults s)). take 1 l \<noteq> ''#''"
    using resultLine_no_hash by (auto dest!: resultLines_set)
  show "length (resultLines False 0 (scanResults s)) = length (scanResults s)"
    by (rule length_resultLines)
  show "\<forall>i < length (resultLines False 0 (scanResults s)). \<exists>ident.
        resultLines False 0 (scanResults s) ! i =
          ident @ '','' @ ''0x'' @ hex_nat (unat (address (scanResults s ! i))) @ '','' @
          dec_nat (ordinal (vtype (scanResults s ! i))) @ '','' @
          concat (map hex_byte (val (scanResults s ! i))) @ '','' @
          description (scanResults s ! i) \<and>
        (i < 10 \<longrightarrow> ident = dec_nat i)"
  proof (intro allI impI)
    fix i
    assume "i < length (resultLines False 0 (scanResults s))"
    then have "i < length (scanResults s)" by (simp add: length_resultLines)
    from resultLines_nth [OF this, of False 0]
    obtain b where "resultLines False 0 (scanResults s) ! i = resultLine b i (scanResults s ! i)"
      by auto
    then show "\<exists>ident.
        resultLines False 0 (scanResults s) ! i =
          ident @ '','' @ ''0x'' @ hex_nat (unat (address (scanResults s ! i))) @ '','' @
          dec_nat (ordinal (vtype (scanResults s ! i))) @ '','' @
          concat (map hex_byte (val (scanResults s ! i))) @ '','' @
          description (scanResults s ! i) \<and>
        (i < 10 \<longrightarrow> ident = dec_nat i)"
      by (intro exI [of _ "if b then hex_nat i else dec_nat i"])
         (simp add: resultLine_def small_index)
  qed
qed

theorem saveResults_layout_witness:
  "scanResults found100 = [hit100] \<and>
   targetName found100 = ''game'' \<and>
   line_feed \<notin> set ''game'' \<and>
   description hit100 = ''100'' \<and>
   line_feed \<notin> set ''100'' \<and>
   (\<exists>content records.
      saveResults found100 True 1700000000 = Some content \<and>
      file_lines content = headerLines found100 1700000000 @ records \<and>
      length (headerLines found100 1700000000) = 5 \<and>
      length records = 1)"
proof -
  have ne: "scanResults found100 \<noteq> []" by (simp add: found100_results)
  have nm: "targetName found100 = ''game''"
    by (simp add: found100_def attached100_def target_eval)
  have plain: "line_feed \<notin> set ''game''" "line_feed \<notin> set ''100''"
    by (simp_all add: line_feed_def)
  have d: "description hit100 = ''100''" by (simp add: hit100_def)
  have h2: "line_feed \<notin> set (targetName found100)" using nm plain(1) by simp
  have h3: "\<forall>r \<in> set (scanResults found100). line_feed \<notin> set (description r)"
    using d plain(2) by (simp add: found100_results)
  from saveResults_layout [OF ne h2 h3, of 1700000000]
  obtain content records where
    "saveResults found100 True 1700000000 = Some content"
    "file_lines content = headerLines found100 1700000000 @ records"
    "length (headerLines found100 1700000000) = 5"
    "length records = length (scanResults found100)"
    by blast
  with nm plain d show ?thesis by (auto simp: found100_results)
qed

section \<open>Watching an address\<close>

lemma watchLoop_frame:
  assumes run: "watchLoop fp mem addr type valueSize t lastValue updateCount out s = Some y"
  shows "\<forall>s' out'. y = Inr (s', out') \<longrightarrow> s' = s"
proof (rule watchLoop.raw_induct [where P = "\<lambda>_ _ _ _ _ _ _ _ _ s y.
     \<forall>s' out'. y = Inr (s', out') \<longrightarrow> s' = s", OF _ run])
  fix f :: "fpu \<Rightarrow> memory \<Rightarrow> u64 \<Rightarrow> ValueType \<Rightarrow> nat \<Rightarrow> nat \<Rightarrow> byte list \<Rightarrow> nat \<Rightarrow> watch_line list \<Rightarrow>
     MemoryScanner \<Rightarrow> (fault + MemoryScanner \<times> watch_line list) option"
  fix fp mem addr type valueSize t lastValue updateCount out s y
  assume IH: "\<And>fp mem addr type valueSize t lastValue updateCount out s y.
      f fp mem addr type valueSize t lastValue updateCount out s = Some y \<Longrightarrow>
      \<forall>s' out'. y = Inr (s', out') \<longrightarrow> s' = s"
  assume body: "(case readMemoryBlock mem t addr valueSize of
        None \<Rightarrow> Some (Inr (s, out @ [FailedToRead]))
      | Some currentValue \<Rightarrow>
          (case memcmp_eq lastValue 0 currentValue valueSize of
             Inl f \<Rightarrow> Some (Inl f)
           | Inr same \<Rightarrow>
               if \<not> same then
                 (case printValue fp lastValue type of
                    Inl f \<Rightarrow> Some (Inl f)
                  | Inr old \<Rightarrow>
                      (case printValue fp currentValue type of
                         Inl f \<Rightarrow> Some (Inl f)
                       | Inr new \<Rightarrow>
                           f fp mem addr type valueSize (t + 1) currentValue
                             (updateCount + 1)
                             (out @ [ChangeDetected (updateCount + 1) old new]) s))
               else f fp mem addr type valueSize (t + 1) lastValue updateCount out s)) = Some y"
  show "\<forall>s' out'. y = Inr (s', out') \<longrightarrow> s' = s"
    using body IH
    by (auto split: option.splits sum.splits if_splits)
qed

text \<open>The loop ends as soon as a read fails.\<close>

lemma watchLoop_ends:
  "readMemoryBlock mem (t + k) addr valueSize = None \<Longrightarrow>
   \<exists>y. watchLoop fp mem addr type valueSize t lastValue updateCount out s = Some y"
proof (induction k arbitrary: t lastValue updateCount out)
  case 0
  then show ?case by (subst watchLoop.simps) simp
next
  case (Suc k)
  from Suc.prems have "readMemoryBlock mem (t + 1 + k) addr valueSize = None" by simp
  from Suc.IH [OF this] show ?case
    by (subst watchLoop.simps) (auto split: option.splits sum.splits)
qed

lemma watch_found100:
  "watchAddress no_fpu watch_memory found100 0x1000 INT32 1000 =
     Some (Inr (found100, [Watching ''100'', ChangeDetected 1 ''100'' ''101'', FailedToRead]))"
  by (simp add: watchAddress_def found100_def attached100_def target_eval watch_memory_def
      watchLoop.simps printValue_def memcmp_eq_def window_def le_sint_def dec_int_def dec_nat.simps
      char_eval)

text \<open>
  C10. Whatever the address, the kind and the interval, when watchAddress comes back
  the scanner is the scanner it was called on: the current and previous result sets, the
  region catalog and the attachment are as before.
\<close>

theorem watchAddress_frame:
  "watchAddress fp mem s addr type updateInterval = Some (Inr (s', out)) \<Longrightarrow> s' = s"
  using watchLoop_frame
  by (fastforce simp: watchAddress_def Let_def split: if_splits option.splits sum.splits)

theorem watchAddress_frame_witness:
  "watchAddress no_fpu watch_memory found100 0x1000 INT32 1000 =
     Some (Inr (found100, [Watching ''100'', ChangeDetected 1 ''100'' ''101'', FailedToRead])) \<and>
   scanResults found100 = [hit100]"
proof -
  have same: "found100 = found100"
    by (rule watchAddress_frame [OF watch_found100])
  from same watch_found100 found100_results show ?thesis by simp
qed

end
